theory Spec2Isabelle
  imports Main "HOL-Library.Signed_Division"
begin

section \<open>The Sudoku server (server.c)\<close>

text \<open>
  The repository holds two sibling servers with the same coordination engine: the
  collaborative Sudoku server (\<^verbatim>\<open>server.c\<close>, spin locks over System V shared memory)
  and the dice game ``Race to 100'' (\<^verbatim>\<open>common.h\<close> and its \<^verbatim>\<open>server.c\<close>, pthread
  mutexes over POSIX shared memory). Both are embedded here, the Sudoku server first.

  C's \<^verbatim>\<open>int\<close> is modelled by \<^typ>\<open>int\<close>: signed overflow is undefined in C, and the
  arithmetic of the server (scores moving by 10, 5 or a dice sum, counters moving by 1)
  stays far inside the 32-bit range in any game a person can play. The remainder operator
  \<^verbatim>\<open>%\<close> is C's truncating one, \<open>smod\<close>.
\<close>

subsection \<open>Configuration and constants\<close>

abbreviation (input) MIN_PLAYERS :: int where "MIN_PLAYERS \<equiv> 3"
abbreviation (input) MAX_PLAYERS :: int where "MAX_PLAYERS \<equiv> 5"
abbreviation (input) MAX_NAME_LEN :: nat where "MAX_NAME_LEN \<equiv> 32"
abbreviation (input) LOG_QUEUE_SIZE :: int where "LOG_QUEUE_SIZE \<equiv> 100"
abbreviation (input) MAX_SCORES :: int where "MAX_SCORES \<equiv> 100"
abbreviation (input) GRID_SIZE :: int where "GRID_SIZE \<equiv> 9"
abbreviation (input) EMPTY_CELL :: int where "EMPTY_CELL \<equiv> 0"
abbreviation (input) POINTS_CORRECT :: int where "POINTS_CORRECT \<equiv> 10"
abbreviation (input) POINTS_WRONG :: int where "POINTS_WRONG \<equiv> - 5"

subsection \<open>Type definitions\<close>

datatype PlayerState = PLAYER_DISCONNECTED | PLAYER_WAITING | PLAYER_ACTIVE | PLAYER_FINISHED

datatype GameState = GAME_WAITING_FOR_PLAYERS | GAME_IN_PROGRESS | GAME_FINISHED

record Player =
  p_id :: int
  p_name :: string
  p_score :: int
  p_correct_placements :: int
  p_wrong_placements :: int
  p_state :: PlayerState
  p_handler_pid :: int

record SudokuCell =
  c_value :: int
  c_solution :: int
  c_is_fixed :: int
  c_placed_by :: int

text \<open>
  \<^verbatim>\<open>SharedGameState\<close>. The arrays \<^verbatim>\<open>grid[9][9]\<close> and \<^verbatim>\<open>players[5]\<close> are lists; the
  predicate \<open>wf_game\<close> below fixes their sizes. The embedded \<^verbatim>\<open>game_lock\<close> is not a
  field: what a thread does with the three locks is recorded in the lock trace of the
  server state.
\<close>

record SharedGameState =
  game_state :: GameState
  num_players :: int
  current_turn :: int
  winner_id :: int
  grid :: "SudokuCell list list"
  cells_remaining :: int
  players :: "Player list"
  turn_signal :: int
  game_reset_requested :: int
  server_shutdown :: int

text \<open>
  A log message is the format string of one \<^verbatim>\<open>enqueue_log\<close> call with its arguments
  (the text \<^verbatim>\<open>vsnprintf\<close> would build from them); \<open>LogZero\<close> is a zeroed entry.
  Time stamps are left out.
\<close>

datatype log_text =
    LogZero
  | LogGeneratedPuzzle int int
  | LogSchedulerTurnPassed int string
  | LogSchedulerNoActive
  | LogPuzzleComplete int string int
  | LogTurnAdvanced int string
  | LogHandlerStarted int
  | LogPlayerDisconnected int string
  | LogPlayerJoined int string int
  | LogGameStarted int int
  | LogPlacedCorrect int string int int int int
  | LogPlacedWrong int string int int int int
  | LogPlayerQuit int string
  | LogSchedulerInitialized
  | LogLoadedScores int
  | LogClientConnected int
  | LogServerStarted
  | LogServerShutdown
  | LogRaceSnakeEyes int string
  | LogRaceRolled int string int int int int
  | LogRaceGameOver int string int
  | LogRaceSavedScores int
  | LogRaceGameStarted int int

record LogQueue =
  lq_entries :: "log_text list"
  lq_head :: int
  lq_tail :: int
  lq_count :: int
  lq_shutdown :: int

record ScoreEntry =
  se_name :: string
  se_wins :: int
  se_total_correct :: int
  se_total_wrong :: int

text \<open>
  \<^verbatim>\<open>MSG_ZERO\<close> is the type field of a message that \<^verbatim>\<open>memset\<close> has zeroed (the enum
  starts at 1).
\<close>

datatype MessageType =
    MSG_ZERO
  | MSG_JOIN
  | MSG_PLACE
  | MSG_QUIT
  | MSG_GAME_STATE
  | MSG_YOUR_TURN
  | MSG_PLACE_RESULT
  | MSG_GAME_OVER
  | MSG_WAIT
  | MSG_ERROR
  | MSG_PLAYER_JOINED
  | MSG_PLAYER_LEFT
  | MSG_GAME_START
  | MSG_GRID_UPDATE

text \<open>The text of a response: the format string of the \<^verbatim>\<open>snprintf\<close> call and its arguments.\<close>

datatype message_text =
    TextZero
  | TextWelcome string int int
  | TextGameStarted int int
  | TextGameNotInProgress
  | TextNotYourTurn int string
  | TextInvalidPosition int int
  | TextInvalidNumber int
  | TextCellFixed int int
  | TextCellHasValue int int int
  | TextCorrect int int int
  | TextWrong int int
  | TextYouWon int
  | TextWinner string int int
  | TextGameStatus GameState int bool
  | TextGoodbye string int
  | TextUnknownCommand

text \<open>
  \<^verbatim>\<open>GameMessage\<close>, without the state snapshot that \<^verbatim>\<open>copy_state_to_message\<close> copies
  into a response (grid, players, counters): the snapshot only reads the shared state.
\<close>

record GameMessage =
  m_type :: MessageType
  m_player_id :: int
  m_player_name :: string
  m_row :: int
  m_col :: int
  m_value :: int
  m_success :: int
  m_points_earned :: int
  m_text :: message_text

definition zero_message :: GameMessage where
  "zero_message = \<lparr>m_type = MSG_ZERO, m_player_id = 0, m_player_name = [], m_row = 0,
     m_col = 0, m_value = 0, m_success = 0, m_points_earned = 0, m_text = TextZero\<rparr>"

subsection \<open>The three shared regions and the locks\<close>

datatype lock = GameLock | LogLock | ScoresLock

datatype lock_event = Acquire lock | Release lock

text \<open>
  The state of the server: the three shared-memory regions (\<^verbatim>\<open>game_state\<close>,
  \<^verbatim>\<open>log_queue\<close>, \<^verbatim>\<open>scores\<close>; the score table is the list of its first \<^verbatim>\<open>count\<close>
  entries), the score file with whether \<^verbatim>\<open>fopen\<close> can open it for writing, and the
  trace of the lock operations executed so far, oldest first.
\<close>

record server =
  game :: SharedGameState
  log_queue :: LogQueue
  scores :: "ScoreEntry list"
  scores_file :: "ScoreEntry list"
  scores_file_writable :: bool
  lock_trace :: "lock_event list"

definition spin_lock :: "lock \<Rightarrow> server \<Rightarrow> server" where
  "spin_lock l sv = sv\<lparr>lock_trace := lock_trace sv @ [Acquire l]\<rparr>"

definition spin_unlock :: "lock \<Rightarrow> server \<Rightarrow> server" where
  "spin_unlock l sv = sv\<lparr>lock_trace := lock_trace sv @ [Release l]\<rparr>"

definition wf_game :: "SharedGameState \<Rightarrow> bool" where
  "wf_game g \<longleftrightarrow> length (players g) = 5 \<and> length (grid g) = 9 \<and> list_all (\<lambda>r. length r = 9) (grid g)"

subsection \<open>Logging\<close>

definition enqueue_log :: "log_text \<Rightarrow> server \<Rightarrow> server" where
  "enqueue_log message sv0 =
     (let sv = spin_lock LogLock sv0;
          q = log_queue sv;
          sv' = (if lq_count q < LOG_QUEUE_SIZE
                 then sv\<lparr>log_queue := q\<lparr>lq_entries := (lq_entries q)[nat (lq_tail q) := message],
                                          lq_tail := (lq_tail q + 1) smod LOG_QUEUE_SIZE,
                                          lq_count := lq_count q + 1\<rparr>\<rparr>
                 else sv)
      in spin_unlock LogLock sv')"

text \<open>
  The logger thread. The inner loop of \<^verbatim>\<open>logger_thread_func\<close> (lines 245--257) takes the
  entries off the queue; the lines it writes to the log file are not part of the state.
  \<open>logger_iteration\<close> is one iteration of its \<^verbatim>\<open>while (1)\<close> loop, without the sleep.
\<close>

function logger_drain :: "LogQueue \<Rightarrow> LogQueue" where
  "logger_drain q =
     (if lq_count q > 0
      then logger_drain (q\<lparr>lq_head := (lq_head q + 1) smod LOG_QUEUE_SIZE, lq_count := lq_count q - 1\<rparr>)
      else q)"
  by pat_completeness auto
termination
  by (relation "measure (\<lambda>q. nat (lq_count q))") auto

declare logger_drain.simps [simp del]

definition logger_iteration :: "server \<Rightarrow> server" where
  "logger_iteration sv0 =
     (let sv = spin_lock LogLock sv0;
          sv = sv\<lparr>log_queue := logger_drain (log_queue sv)\<rparr>
      in spin_unlock LogLock sv)"

subsection \<open>Puzzle generation\<close>

text \<open>
  \<^verbatim>\<open>generate_puzzle\<close> fills the grid from \<^verbatim>\<open>rand()\<close>: a backtracking search for a full
  grid, then random cells emptied until \<^verbatim>\<open>cells_to_remove\<close> are gone. The grid it leaves
  is the parameter \<open>puzzle\<close>; the counter and the log entry are computed as in the code.
\<close>

definition generate_puzzle :: "SudokuCell list list \<Rightarrow> int \<Rightarrow> server \<Rightarrow> server" where
  "generate_puzzle puzzle difficulty sv =
     (let cells_to_remove = 30 + difficulty * 5;
          cells_to_remove = (if cells_to_remove > 55 then 55 else cells_to_remove)
      in enqueue_log (LogGeneratedPuzzle cells_to_remove difficulty)
           (sv\<lparr>game := (game sv)\<lparr>grid := puzzle, cells_remaining := cells_to_remove\<rparr>\<rparr>))"

subsection \<open>Score persistence\<close>

text \<open>
  \<^verbatim>\<open>load_scores\<close> (lines 364--388). What \<^verbatim>\<open>fopen\<close> and \<^verbatim>\<open>fscanf\<close> find belongs to the
  environment: \<open>file\<close> is \<open>None\<close> when the file cannot be opened, and otherwise the rows
  that \<^verbatim>\<open>fscanf\<close> reads one after the other.
\<close>

definition load_scores :: "ScoreEntry list option \<Rightarrow> server \<Rightarrow> server" where
  "load_scores file sv0 =
     (case file of
        None \<Rightarrow> sv0
      | Some rows \<Rightarrow>
          (let sv = spin_lock ScoresLock sv0;
               sv = sv\<lparr>scores := fold (\<lambda>row es. if int (length es) < MAX_SCORES
                                             then es @ [row\<lparr>se_name := take (MAX_NAME_LEN - 1) (se_name row)\<rparr>]
                                             else es)
                                      rows (scores sv)\<rparr>;
               sv = spin_unlock ScoresLock sv
           in enqueue_log (LogLoadedScores (int (length (scores sv)))) sv))"

definition save_scores :: "server \<Rightarrow> server" where
  "save_scores sv0 =
     (if \<not> scores_file_writable sv0 then sv0
      else let sv = spin_lock ScoresLock sv0;
               sv = sv\<lparr>scores_file := scores sv\<rparr>
           in spin_unlock ScoresLock sv)"

fun find_score_entry :: "ScoreEntry list \<Rightarrow> string \<Rightarrow> int \<Rightarrow> int" where
  "find_score_entry [] player_name i = - 1"
| "find_score_entry (e # es) player_name i =
     (if se_name e = player_name then i else find_score_entry es player_name (i + 1))"

text \<open>The update of the table between \<^verbatim>\<open>spin_lock\<close> and \<^verbatim>\<open>spin_unlock\<close> (lines 414--432).\<close>

definition update_entries :: "string \<Rightarrow> bool \<Rightarrow> int \<Rightarrow> int \<Rightarrow> ScoreEntry list \<Rightarrow> ScoreEntry list" where
  "update_entries player_name is_winner correct wrong es =
     (let found = find_score_entry es player_name 0
      in if found \<ge> 0
         then es[nat found := (es ! nat found)
                   \<lparr>se_wins := (if is_winner then se_wins (es ! nat found) + 1
                                else se_wins (es ! nat found)),
                    se_total_correct := se_total_correct (es ! nat found) + correct,
                    se_total_wrong := se_total_wrong (es ! nat found) + wrong\<rparr>]
         else if int (length es) < MAX_SCORES
         then es @ [\<lparr>se_name = take (MAX_NAME_LEN - 1) player_name,
                     se_wins = (if is_winner then 1 else 0),
                     se_total_correct = correct, se_total_wrong = wrong\<rparr>]
         else es)"

definition update_player_stats :: "string \<Rightarrow> bool \<Rightarrow> int \<Rightarrow> int \<Rightarrow> server \<Rightarrow> server" where
  "update_player_stats player_name is_winner correct wrong sv0 =
     (let sv = spin_lock ScoresLock sv0;
          sv = sv\<lparr>scores := update_entries player_name is_winner correct wrong (scores sv)\<rparr>;
          sv = spin_unlock ScoresLock sv
      in save_scores sv)"

subsection \<open>Round robin\<close>

text \<open>
  The \<^verbatim>\<open>do ... while (idx != start)\<close> loop of \<^verbatim>\<open>get_next_active_player\<close>. An index
  outside \<^verbatim>\<open>players[0..4]\<close> would read outside the array; the only caller passes a
  remainder modulo 5 of a value that is at least 0, so the first branch is never taken
  there (a \<open>current\<close> below \<open>-1\<close> is never passed: \<open>current_turn\<close> is \<open>-1\<close> or a slot).
\<close>

function get_next_active_player_loop :: "Player list \<Rightarrow> int \<Rightarrow> int \<Rightarrow> int" where
  "get_next_active_player_loop ps start idx =
     (if start < 0 \<or> MAX_PLAYERS \<le> start \<or> idx < 0 \<or> MAX_PLAYERS \<le> idx then - 1
      else if p_state (ps ! nat idx) = PLAYER_ACTIVE then idx
      else (let idx' = (idx + 1) smod MAX_PLAYERS in
            if idx' \<noteq> start then get_next_active_player_loop ps start idx' else - 1))"
  by pat_completeness auto
termination
proof (relation "measure (\<lambda>(ps, start, idx). nat ((start - idx - 1) mod 5))", goal_cases)
  case 1
  show ?case by simp
next
  case (2 ps start idx x)
  then have r: "0 \<le> start" "start < 5" "0 \<le> idx" "idx < 5" by auto
  have x: "x = (idx + 1) mod 5" using 2 r by (simp add: smod_int_alt_def)
  from 2 have ne: "x \<noteq> start" by simp
  from r consider "idx = 0" | "idx = 1" | "idx = 2" | "idx = 3" | "idx = 4" by linarith
  then show ?case using r x ne
    by cases (simp_all, presburger+)
qed

definition get_next_active_player :: "SharedGameState \<Rightarrow> int \<Rightarrow> int" where
  "get_next_active_player g current =
     (let start = (current + 1) smod MAX_PLAYERS
      in get_next_active_player_loop (players g) start start)"

definition count_active_players :: "SharedGameState \<Rightarrow> int" where
  "count_active_players g =
     fold (\<lambda>i count. if p_state (players g ! i) = PLAYER_ACTIVE then count + 1 else count)
          [0..<nat MAX_PLAYERS] 0"

subsection \<open>The scheduler thread\<close>

text \<open>Lines 475--490 of \<^verbatim>\<open>scheduler_thread_func\<close>: the holder of the turn is checked.\<close>

definition scheduler_check_turn :: "server \<Rightarrow> server" where
  "scheduler_check_turn sv =
     (let g = game sv; current = current_turn g in
      if current \<ge> 0 \<and> current < MAX_PLAYERS then
        if p_state (players g ! nat current) \<noteq> PLAYER_ACTIVE then
          (let next = get_next_active_player g current in
           if next \<ge> 0
           then enqueue_log (LogSchedulerTurnPassed (next + 1) (p_name (players g ! nat next)))
                  (sv\<lparr>game := g\<lparr>current_turn := next, turn_signal := turn_signal g + 1\<rparr>\<rparr>)
           else enqueue_log LogSchedulerNoActive (sv\<lparr>game := g\<lparr>game_state := GAME_FINISHED\<rparr>\<rparr>))
        else sv
      else sv)"

text \<open>The winner loop of the scheduler (lines 495--503): the pair is \<open>(max_score, winner)\<close>.\<close>

definition scheduler_find_winner :: "Player list \<Rightarrow> int \<times> int" where
  "scheduler_find_winner ps =
     fold (\<lambda>i (max_score, winner).
             if p_state (ps ! i) = PLAYER_ACTIVE \<and> p_score (ps ! i) > max_score
             then (p_score (ps ! i), int i) else (max_score, winner))
          [0..<nat MAX_PLAYERS] (- 1000, - 1)"

text \<open>Lines 510--517: one ledger update for each active player.\<close>

definition scheduler_update_stats :: "int \<Rightarrow> server \<Rightarrow> server" where
  "scheduler_update_stats winner sv0 =
     fold (\<lambda>i sv. let p = players (game sv) ! i in
                   if p_state p = PLAYER_ACTIVE
                   then update_player_stats (p_name p) (int i = winner)
                          (p_correct_placements p) (p_wrong_placements p) sv
                   else sv)
          [0..<nat MAX_PLAYERS] sv0"

text \<open>Lines 492--519: the completion check.\<close>

definition scheduler_check_completion :: "server \<Rightarrow> server" where
  "scheduler_check_completion sv =
     (if cells_remaining (game sv) \<le> 0 then
        (let sv = sv\<lparr>game := (game sv)\<lparr>game_state := GAME_FINISHED\<rparr>\<rparr>;
             (max_score, winner) = scheduler_find_winner (players (game sv));
             sv = sv\<lparr>game := (game sv)\<lparr>winner_id := winner\<rparr>\<rparr>
         in if winner \<ge> 0
            then scheduler_update_stats winner
                   (enqueue_log (LogPuzzleComplete (winner + 1)
                                   (p_name (players (game sv) ! nat winner)) max_score) sv)
            else sv)
      else sv)"

text \<open>One iteration of the \<^verbatim>\<open>while (server_running)\<close> loop, without the sleep.\<close>

definition scheduler_iteration :: "server \<Rightarrow> server" where
  "scheduler_iteration sv0 =
     (let sv = spin_lock GameLock sv0;
          sv = (if game_state (game sv) = GAME_IN_PROGRESS
                then scheduler_check_completion (scheduler_check_turn sv)
                else sv)
      in spin_unlock GameLock sv)"

definition advance_turn :: "server \<Rightarrow> server" where
  "advance_turn sv0 =
     (let sv = spin_lock GameLock sv0;
          g = game sv;
          next = get_next_active_player g (current_turn g);
          sv = (if next \<ge> 0
                then enqueue_log (LogTurnAdvanced (next + 1) (p_name (players g ! nat next)))
                       (sv\<lparr>game := g\<lparr>current_turn := next, turn_signal := turn_signal g + 1\<rparr>\<rparr>)
                else sv)
      in spin_unlock GameLock sv)"

subsection \<open>Notifications\<close>

text \<open>
  \<^verbatim>\<open>broadcast_grid_update\<close> takes no lock and writes to the pipes of the other clients;
  \<^verbatim>\<open>broadcast_turn_notification\<close> does the same under the game lock. Neither writes to
  shared memory, so only the lock operations of the second are kept.
\<close>

definition broadcast_turn_notification :: "server \<Rightarrow> server" where
  "broadcast_turn_notification sv0 =
     (let sv = spin_lock GameLock sv0 in
      if game_state (game sv) \<noteq> GAME_IN_PROGRESS then spin_unlock GameLock sv
      else if current_turn (game sv) < 0 \<or> current_turn (game sv) \<ge> MAX_PLAYERS
      then spin_unlock GameLock sv
      else spin_unlock GameLock sv)"

subsection \<open>The client handler\<close>

text \<open>
  \<^verbatim>\<open>handle_client (player_id, ...)\<close> serves slot \<open>player_id\<close>, one of 0..4 (the acceptor
  forks one handler per slot of \<^verbatim>\<open>players\<close>); \<^verbatim>\<open>player\<close> is \<^verbatim>\<open>&players[player_id]\<close>.
  Each case of the \<^verbatim>\<open>switch\<close> is a function from the request and the server state to
  the new state and the response written to the client.
\<close>

text \<open>\<^verbatim>\<open>read\<close> returned 0 or an error (lines 685--693).\<close>

definition handle_disconnect :: "nat \<Rightarrow> server \<Rightarrow> server" where
  "handle_disconnect player_id sv0 =
     (let sv = spin_lock GameLock sv0;
          g = game sv;
          g = g\<lparr>players := (players g)[player_id := (players g ! player_id)\<lparr>p_state := PLAYER_DISCONNECTED\<rparr>]\<rparr>;
          g = g\<lparr>num_players := num_players g - 1\<rparr>;
          sv = spin_unlock GameLock (sv\<lparr>game := g\<rparr>)
      in enqueue_log (LogPlayerDisconnected (int player_id + 1) (p_name (players g ! player_id))) sv)"

text \<open>The promotion loop of the game-start branch (lines 726--730).\<close>

definition promote_waiting :: "Player list \<Rightarrow> Player list" where
  "promote_waiting ps0 =
     fold (\<lambda>i ps. if p_state (ps ! i) = PLAYER_WAITING then ps[i := (ps ! i)\<lparr>p_state := PLAYER_ACTIVE\<rparr>] else ps)
          [0..<nat MAX_PLAYERS] ps0"

text \<open>The game-start branch of \<^verbatim>\<open>MSG_JOIN\<close> (lines 721--741).\<close>

definition join_start_game :: "SudokuCell list list \<Rightarrow> GameMessage \<Rightarrow> server \<Rightarrow> server \<times> GameMessage" where
  "join_start_game puzzle response sv0 =
     (let sv = generate_puzzle puzzle 2 sv0;
          g = game sv;
          g = g\<lparr>game_state := GAME_IN_PROGRESS\<rparr>;
          g = g\<lparr>players := promote_waiting (players g)\<rparr>;
          g = g\<lparr>current_turn := get_next_active_player g (- 1)\<rparr>;
          g = g\<lparr>turn_signal := turn_signal g + 1\<rparr>;
          response = response\<lparr>m_type := MSG_GAME_START,
                               m_text := TextGameStarted (cells_remaining g) (current_turn g + 1)\<rparr>
      in (enqueue_log (LogGameStarted (num_players g) (cells_remaining g)) (sv\<lparr>game := g\<rparr>), response))"

text \<open>The critical section of \<^verbatim>\<open>MSG_JOIN\<close> (lines 699--744).\<close>

definition join_critical :: "nat \<Rightarrow> GameMessage \<Rightarrow> SudokuCell list list \<Rightarrow> server \<Rightarrow> server \<times> GameMessage" where
  "join_critical player_id msg puzzle sv0 =
     (let sv = spin_lock GameLock sv0;
          g = game sv;
          player = (players g ! player_id)
                     \<lparr>p_name := take (MAX_NAME_LEN - 1) (m_player_name msg),
                      p_state := PLAYER_WAITING, p_score := 0,
                      p_correct_placements := 0, p_wrong_placements := 0\<rparr>;
          g = g\<lparr>players := (players g)[player_id := player], num_players := num_players g + 1\<rparr>;
          sv = sv\<lparr>game := g\<rparr>;
          response = zero_message
                       \<lparr>m_type := MSG_PLAYER_JOINED, m_player_id := int player_id,
                        m_text := TextWelcome (p_name player) (int player_id + 1)
                                    (MIN_PLAYERS - num_players g)\<rparr>;
          sv = enqueue_log (LogPlayerJoined (int player_id + 1) (p_name player) (num_players g)) sv;
          (sv, response) =
             (if num_players (game sv) \<ge> MIN_PLAYERS \<and> game_state (game sv) = GAME_WAITING_FOR_PLAYERS
              then join_start_game puzzle response sv
              else (sv, response))
      in (spin_unlock GameLock sv, response))"

definition handle_join :: "nat \<Rightarrow> GameMessage \<Rightarrow> SudokuCell list list \<Rightarrow> server \<Rightarrow> server \<times> GameMessage" where
  "handle_join player_id msg puzzle sv0 =
     (let (sv, response) = join_critical player_id msg puzzle sv0
      in (if game_state (game sv) = GAME_IN_PROGRESS \<and> current_turn (game sv) \<ge> 0
          then broadcast_turn_notification sv else sv, response))"

text \<open>A correct value (lines 822--836) and a wrong one (lines 838--848).\<close>

definition place_correct :: "nat \<Rightarrow> int \<Rightarrow> int \<Rightarrow> int \<Rightarrow> GameMessage \<Rightarrow> server \<Rightarrow> server \<times> GameMessage" where
  "place_correct player_id row col v response sv =
     (let g = game sv;
          cell = grid g ! nat row ! nat col;
          cell = cell\<lparr>c_value := v, c_placed_by := int player_id\<rparr>;
          g = g\<lparr>grid := (grid g)[nat row := (grid g ! nat row)[nat col := cell]]\<rparr>;
          g = g\<lparr>cells_remaining := cells_remaining g - 1\<rparr>;
          player = players g ! player_id;
          player = player\<lparr>p_score := p_score player + POINTS_CORRECT,
                          p_correct_placements := p_correct_placements player + 1\<rparr>;
          g = g\<lparr>players := (players g)[player_id := player]\<rparr>;
          response = response\<lparr>m_success := 1, m_points_earned := POINTS_CORRECT,
                               m_text := TextCorrect POINTS_CORRECT (p_score player) (cells_remaining g)\<rparr>
      in (enqueue_log (LogPlacedCorrect (int player_id + 1) (p_name player) v (row + 1) (col + 1)
                         (p_score player)) (sv\<lparr>game := g\<rparr>),
          response))"

definition place_wrong :: "nat \<Rightarrow> int \<Rightarrow> int \<Rightarrow> int \<Rightarrow> GameMessage \<Rightarrow> server \<Rightarrow> server \<times> GameMessage" where
  "place_wrong player_id row col v response sv =
     (let g = game sv;
          player = players g ! player_id;
          player = player\<lparr>p_score := p_score player + POINTS_WRONG,
                          p_wrong_placements := p_wrong_placements player + 1\<rparr>;
          g = g\<lparr>players := (players g)[player_id := player]\<rparr>;
          response = response\<lparr>m_success := 0, m_points_earned := POINTS_WRONG,
                               m_text := TextWrong POINTS_WRONG (p_score player)\<rparr>
      in (enqueue_log (LogPlacedWrong (int player_id + 1) (p_name player) v (row + 1) (col + 1)
                         (p_score player)) (sv\<lparr>game := g\<rparr>),
          response))"

text \<open>The resolution of an admissible placement (lines 816--849).\<close>

definition place_resolve :: "nat \<Rightarrow> GameMessage \<Rightarrow> GameMessage \<Rightarrow> server \<Rightarrow> server \<times> GameMessage" where
  "place_resolve player_id msg response0 sv =
     (let row = m_row msg; col = m_col msg; v = m_value msg;
          cell = grid (game sv) ! nat row ! nat col;
          response = response0\<lparr>m_type := MSG_PLACE_RESULT, m_row := row, m_col := col, m_value := v\<rparr>
      in if v = c_solution cell
         then place_correct player_id row col v response sv
         else place_wrong player_id row col v response sv)"

text \<open>The winner loop of the handler (lines 856--864): the pair is \<open>(max_score, winner)\<close>.\<close>

definition place_find_winner :: "Player list \<Rightarrow> int \<times> int" where
  "place_find_winner ps =
     fold (\<lambda>i (max_score, winner).
             if p_state (ps ! i) = PLAYER_ACTIVE \<and> p_score (ps ! i) > max_score
             then (p_score (ps ! i), int i) else (max_score, winner))
          [0..<nat MAX_PLAYERS] (- 1000, - 1)"

text \<open>The game-over path of \<^verbatim>\<open>MSG_PLACE\<close> (lines 854--880).\<close>

definition place_game_over :: "nat \<Rightarrow> GameMessage \<Rightarrow> server \<Rightarrow> server \<times> GameMessage" where
  "place_game_over player_id response0 sv =
     (let response = response0\<lparr>m_type := MSG_GAME_OVER\<rparr>;
          g = game sv;
          (max_score, winner) = place_find_winner (players g);
          g = g\<lparr>winner_id := winner\<rparr>;
          g = g\<lparr>game_state := GAME_FINISHED\<rparr>;
          player = players g ! player_id;
          response =
            (if winner = int player_id then response\<lparr>m_text := TextYouWon (p_score player)\<rparr>
             else if winner \<ge> 0
             then response\<lparr>m_text := TextWinner (p_name (players g ! nat winner)) max_score (p_score player)\<rparr>
             else response)
      in (spin_unlock GameLock (sv\<lparr>game := g\<rparr>), response))"

text \<open>
  The critical section of \<^verbatim>\<open>MSG_PLACE\<close> (lines 756--883). The third component tells
  whether the game continues, that is whether line 883 was reached and \<^verbatim>\<open>advance_turn\<close>
  follows.
\<close>

definition place_critical :: "nat \<Rightarrow> GameMessage \<Rightarrow> server \<Rightarrow> server \<times> GameMessage \<times> bool" where
  "place_critical player_id msg sv0 =
     (let sv = spin_lock GameLock sv0;
          g = game sv;
          response = zero_message
      in
      if game_state g \<noteq> GAME_IN_PROGRESS then
        (spin_unlock GameLock sv, response\<lparr>m_type := MSG_ERROR, m_text := TextGameNotInProgress\<rparr>, False)
      else if current_turn g \<noteq> int player_id then
        (spin_unlock GameLock sv,
         response\<lparr>m_type := MSG_WAIT,
                  m_text := TextNotYourTurn (current_turn g + 1) (p_name (players g ! nat (current_turn g)))\<rparr>,
         False)
      else
        (let row = m_row msg; col = m_col msg; v = m_value msg in
         if row < 0 \<or> row \<ge> GRID_SIZE \<or> col < 0 \<or> col \<ge> GRID_SIZE then
           (spin_unlock GameLock sv,
            response\<lparr>m_type := MSG_ERROR, m_text := TextInvalidPosition (row + 1) (col + 1)\<rparr>, False)
         else if v < 1 \<or> v > 9 then
           (spin_unlock GameLock sv,
            response\<lparr>m_type := MSG_ERROR, m_text := TextInvalidNumber v\<rparr>, False)
         else
           (let cell = grid g ! nat row ! nat col in
            if c_is_fixed cell \<noteq> 0 then
              (spin_unlock GameLock sv,
               response\<lparr>m_type := MSG_ERROR, m_text := TextCellFixed (row + 1) (col + 1)\<rparr>, False)
            else if c_value cell \<noteq> EMPTY_CELL then
              (spin_unlock GameLock sv,
               response\<lparr>m_type := MSG_ERROR,
                        m_text := TextCellHasValue (row + 1) (col + 1) (c_value cell)\<rparr>, False)
            else
              (let (sv, response) = place_resolve player_id msg response sv
               in if cells_remaining (game sv) \<le> 0
                  then (let (sv, response) = place_game_over player_id response sv
                        in (sv, response, False))
                  else (spin_unlock GameLock sv, response, True)))))"

text \<open>
  The whole \<^verbatim>\<open>MSG_PLACE\<close> case: after the critical section, a game that continues
  advances the turn and notifies the players (lines 883--892).
\<close>

definition handle_place :: "nat \<Rightarrow> GameMessage \<Rightarrow> server \<Rightarrow> server \<times> GameMessage" where
  "handle_place player_id msg sv0 =
     (let (sv, response, continues) = place_critical player_id msg sv0
      in if continues then (broadcast_turn_notification (advance_turn sv), response)
         else (sv, response))"

definition handle_game_state :: "nat \<Rightarrow> server \<Rightarrow> server \<times> GameMessage" where
  "handle_game_state player_id sv0 =
     (let sv = spin_lock GameLock sv0;
          g = game sv;
          response = zero_message
                       \<lparr>m_type := MSG_GAME_STATE,
                        m_text := TextGameStatus (game_state g) (cells_remaining g)
                                    (current_turn g = int player_id)\<rparr>
      in (spin_unlock GameLock sv, response))"

definition handle_quit :: "nat \<Rightarrow> server \<Rightarrow> server \<times> GameMessage" where
  "handle_quit player_id sv0 =
     (let sv = spin_lock GameLock sv0;
          g = game sv;
          g = g\<lparr>players := (players g)[player_id := (players g ! player_id)\<lparr>p_state := PLAYER_DISCONNECTED\<rparr>]\<rparr>;
          g = g\<lparr>num_players := num_players g - 1\<rparr>;
          sv = spin_unlock GameLock (sv\<lparr>game := g\<rparr>);
          player = players g ! player_id;
          sv = enqueue_log (LogPlayerQuit (int player_id + 1) (p_name player)) sv;
          response = zero_message\<lparr>m_type := MSG_PLAYER_LEFT,
                                   m_text := TextGoodbye (p_name player) (p_score player)\<rparr>
      in (sv, response))"

definition handle_unknown :: "server \<Rightarrow> server \<times> GameMessage" where
  "handle_unknown sv = (sv, zero_message\<lparr>m_type := MSG_ERROR, m_text := TextUnknownCommand\<rparr>)"

text \<open>The \<^verbatim>\<open>switch (msg.type)\<close> of the handler loop.\<close>

definition handle_message :: "nat \<Rightarrow> GameMessage \<Rightarrow> SudokuCell list list \<Rightarrow> server \<Rightarrow> server \<times> GameMessage" where
  "handle_message player_id msg puzzle sv =
     (case m_type msg of
        MSG_JOIN \<Rightarrow> handle_join player_id msg puzzle sv
      | MSG_PLACE \<Rightarrow> handle_place player_id msg sv
      | MSG_GAME_STATE \<Rightarrow> handle_game_state player_id sv
      | MSG_QUIT \<Rightarrow> handle_quit player_id sv
      | _ \<Rightarrow> handle_unknown sv)"

subsection \<open>Start-up and runs of the server\<close>

text \<open>
  The regions as \<^verbatim>\<open>setup_shared_memory\<close> leaves them. The score file and its
  permissions belong to the environment; the scores are loaded afterwards, by \<open>load_scores\<close>.
\<close>

definition initial_player :: "nat \<Rightarrow> Player" where
  "initial_player i = \<lparr>p_id = int i, p_name = [], p_score = 0, p_correct_placements = 0,
     p_wrong_placements = 0, p_state = PLAYER_DISCONNECTED, p_handler_pid = 0\<rparr>"

definition initial_cell :: SudokuCell where
  "initial_cell = \<lparr>c_value = EMPTY_CELL, c_solution = 0, c_is_fixed = 0, c_placed_by = - 1\<rparr>"

definition initial_game :: SharedGameState where
  "initial_game = \<lparr>game_state = GAME_WAITING_FOR_PLAYERS, num_players = 0, current_turn = - 1,
     winner_id = - 1, grid = replicate 9 (replicate 9 initial_cell), cells_remaining = 0,
     players = map initial_player [0..<nat MAX_PLAYERS], turn_signal = 0,
     game_reset_requested = 0, server_shutdown = 0\<rparr>"

definition setup_shared_memory :: "bool \<Rightarrow> server" where
  "setup_shared_memory writable =
     \<lparr>game = initial_game,
      log_queue = \<lparr>lq_entries = replicate (nat LOG_QUEUE_SIZE) LogZero, lq_head = 0, lq_tail = 0,
                   lq_count = 0, lq_shutdown = 0\<rparr>,
      scores = [], scores_file = [], scores_file_writable = writable, lock_trace = []\<rparr>"

text \<open>
  \<^verbatim>\<open>sigint_handler\<close> (lines 954--965), installed for SIGINT and SIGTERM before the handler
  processes are forked and the threads are created, so that every one of them may run it.
  The flag \<^verbatim>\<open>server_running\<close> it clears is private to the process and is not part of the
  shared regions; \<^verbatim>\<open>log_queue\<close> is mapped for as long as handlers and scheduler run.
\<close>

definition sigint_handler :: "server \<Rightarrow> server" where
  "sigint_handler sv0 =
     (let sv = save_scores sv0;
          sv = spin_lock LogLock sv;
          sv = sv\<lparr>log_queue := (log_queue sv)\<lparr>lq_shutdown := 1\<rparr>\<rparr>
      in spin_unlock LogLock sv)"

text \<open>The end of \<^verbatim>\<open>main\<close> (lines 1210--1215), once \<^verbatim>\<open>server_running\<close> is cleared.\<close>

definition main_shutdown :: "server \<Rightarrow> server" where
  "main_shutdown sv0 =
     (let sv = enqueue_log LogServerShutdown sv0;
          sv = save_scores sv;
          sv = spin_lock LogLock sv;
          sv = sv\<lparr>log_queue := (log_queue sv)\<lparr>lq_shutdown := 1\<rparr>\<rparr>
      in spin_unlock LogLock sv)"

text \<open>
  Threads and processes interleave at their critical sections. An event is one of them:
  a request served by the handler of a slot (for a placement, its critical section; the
  \<^verbatim>\<open>advance_turn\<close> that follows an accepted placement is an event of its own, since other
  threads may run in between), the loss of a client, a notification, one iteration of
  the scheduler or of the logger, a log entry written outside the critical sections (by
  the scheduler and each handler when they start, lines 469 and 679, and by the main
  thread, lines 1121 and 1196), the loading of the scores and the shutdown by the main
  thread, or the signal handler run to its end by a thread that is between two critical
  sections (a signal that arrives inside one is delivered by \<open>deliver\<close> below). Handlers
  exist for the slots 0..4 only. The events may come in any order, also those that the
  main thread runs once.
\<close>

datatype event =
    EvJoin nat GameMessage "SudokuCell list list"
  | EvPlace nat GameMessage
  | EvAdvanceTurn
  | EvNotify
  | EvGameState nat
  | EvQuit nat
  | EvDisconnect nat
  | EvScheduler
  | EvLog log_text
  | EvLogger
  | EvLoadScores "ScoreEntry list option"
  | EvShutdown
  | EvSignal

fun exec :: "event \<Rightarrow> server \<Rightarrow> server" where
  "exec (EvJoin player_id msg puzzle) sv =
     (if int player_id < MAX_PLAYERS then fst (handle_join player_id msg puzzle sv) else sv)"
| "exec (EvPlace player_id msg) sv =
     (if int player_id < MAX_PLAYERS then fst (place_critical player_id msg sv) else sv)"
| "exec EvAdvanceTurn sv = advance_turn sv"
| "exec EvNotify sv = broadcast_turn_notification sv"
| "exec (EvGameState player_id) sv =
     (if int player_id < MAX_PLAYERS then fst (handle_game_state player_id sv) else sv)"
| "exec (EvQuit player_id) sv =
     (if int player_id < MAX_PLAYERS then fst (handle_quit player_id sv) else sv)"
| "exec (EvDisconnect player_id) sv =
     (if int player_id < MAX_PLAYERS then handle_disconnect player_id sv else sv)"
| "exec EvScheduler sv = scheduler_iteration sv"
| "exec (EvLog message) sv = enqueue_log message sv"
| "exec EvLogger sv = logger_iteration sv"
| "exec (EvLoadScores file) sv = load_scores file sv"
| "exec EvShutdown sv = main_shutdown sv"
| "exec EvSignal sv = sigint_handler sv"

definition run_from :: "server \<Rightarrow> event list \<Rightarrow> server" where
  "run_from sv es = fold exec es sv"

definition run :: "bool \<Rightarrow> event list \<Rightarrow> server" where
  "run writable es = run_from (setup_shared_memory writable) es"

section \<open>The dice server (Race to 100)\<close>

text \<open>
  The sibling server: the same handler and round robin over \<^verbatim>\<open>common.h\<close>, with dice in
  place of the grid. Its enumerations \<^verbatim>\<open>PlayerState\<close> and \<^verbatim>\<open>GameState\<close> are those of
  the Sudoku server. Its mutexes are not recorded: every function below is the code between
  \<^verbatim>\<open>pthread_mutex_lock\<close> and \<^verbatim>\<open>pthread_mutex_unlock\<close> of \<^verbatim>\<open>game_mutex\<close>, followed by what
  the handler does after it. The two values drawn from \<^verbatim>\<open>rand()\<close> are parameters.
\<close>

abbreviation (input) WINNING_SCORE :: int where "WINNING_SCORE \<equiv> 100"

record RacePlayer =
  rp_id :: int
  rp_name :: string
  rp_score :: int
  rp_state :: PlayerState
  rp_handler_pid :: int

record RaceGameState =
  r_game_state :: GameState
  r_num_players :: int
  r_current_turn :: int
  r_winner_id :: int
  r_players :: "RacePlayer list"
  r_game_reset_requested :: int
  r_server_shutdown :: int

record RaceScoreEntry =
  rse_name :: string
  rse_wins :: int

datatype RaceMessageType =
    RMSG_ZERO
  | RMSG_JOIN
  | RMSG_ROLL
  | RMSG_QUIT
  | RMSG_GAME_STATE
  | RMSG_YOUR_TURN
  | RMSG_ROLL_RESULT
  | RMSG_GAME_OVER
  | RMSG_WAIT
  | RMSG_ERROR
  | RMSG_PLAYER_JOINED
  | RMSG_PLAYER_LEFT
  | RMSG_GAME_START

datatype race_text =
    RTextZero
  | RTextWelcome string int int
  | RTextGameNotInProgress
  | RTextNotYourTurn int string
  | RTextSnakeEyes int int
  | RTextRolled int int int int
  | RTextYouWon int
  | RTextGoodbye string
  | RTextUnknownCommand

record RaceMessage =
  rm_type :: RaceMessageType
  rm_player_id :: int
  rm_player_name :: string
  rm_value :: int
  rm_text :: race_text

definition race_zero_message :: RaceMessage where
  "race_zero_message = \<lparr>rm_type = RMSG_ZERO, rm_player_id = 0, rm_player_name = [],
     rm_value = 0, rm_text = RTextZero\<rparr>"

record race_server =
  r_game :: RaceGameState
  r_log_queue :: LogQueue
  r_scores :: "RaceScoreEntry list"
  r_scores_file :: "RaceScoreEntry list"
  r_scores_file_writable :: bool

definition race_enqueue_log :: "log_text \<Rightarrow> race_server \<Rightarrow> race_server" where
  "race_enqueue_log message sv =
     (let q = r_log_queue sv
      in if lq_count q < LOG_QUEUE_SIZE
         then sv\<lparr>r_log_queue := q\<lparr>lq_entries := (lq_entries q)[nat (lq_tail q) := message],
                                    lq_tail := (lq_tail q + 1) smod LOG_QUEUE_SIZE,
                                    lq_count := lq_count q + 1\<rparr>\<rparr>
         else sv)"

definition race_save_scores :: "race_server \<Rightarrow> race_server" where
  "race_save_scores sv =
     (if \<not> r_scores_file_writable sv then sv
      else race_enqueue_log (LogRaceSavedScores (int (length (r_scores sv))))
             (sv\<lparr>r_scores_file := r_scores sv\<rparr>))"

fun race_find_score_entry :: "RaceScoreEntry list \<Rightarrow> string \<Rightarrow> int \<Rightarrow> int" where
  "race_find_score_entry [] player_name i = - 1"
| "race_find_score_entry (e # es) player_name i =
     (if rse_name e = player_name then i else race_find_score_entry es player_name (i + 1))"

definition update_score :: "string \<Rightarrow> race_server \<Rightarrow> race_server" where
  "update_score player_name sv =
     (let es = r_scores sv;
          found = race_find_score_entry es player_name 0;
          es' = (if found \<ge> 0
                 then es[nat found := (es ! nat found)\<lparr>rse_wins := rse_wins (es ! nat found) + 1\<rparr>]
                 else if int (length es) < MAX_SCORES
                 then es @ [\<lparr>rse_name = take (MAX_NAME_LEN - 1) player_name, rse_wins = 1\<rparr>]
                 else es)
      in race_save_scores (sv\<lparr>r_scores := es'\<rparr>))"

function race_get_next_active_player_loop :: "RacePlayer list \<Rightarrow> int \<Rightarrow> int \<Rightarrow> int" where
  "race_get_next_active_player_loop ps start idx =
     (if start < 0 \<or> MAX_PLAYERS \<le> start \<or> idx < 0 \<or> MAX_PLAYERS \<le> idx then - 1
      else if rp_state (ps ! nat idx) = PLAYER_ACTIVE then idx
      else (let idx' = (idx + 1) smod MAX_PLAYERS in
            if idx' \<noteq> start then race_get_next_active_player_loop ps start idx' else - 1))"
  by pat_completeness auto
termination
proof (relation "measure (\<lambda>(ps, start, idx). nat ((start - idx - 1) mod 5))", goal_cases)
  case 1
  show ?case by simp
next
  case (2 ps start idx x)
  then have r: "0 \<le> start" "start < 5" "0 \<le> idx" "idx < 5" by auto
  have x: "x = (idx + 1) mod 5" using 2 r by (simp add: smod_int_alt_def)
  from 2 have ne: "x \<noteq> start" by simp
  from r consider "idx = 0" | "idx = 1" | "idx = 2" | "idx = 3" | "idx = 4" by linarith
  then show ?case using r x ne
    by cases (simp_all, presburger+)
qed

definition race_get_next_active_player :: "RaceGameState \<Rightarrow> int \<Rightarrow> int" where
  "race_get_next_active_player g current =
     (let start = (current + 1) smod MAX_PLAYERS
      in race_get_next_active_player_loop (r_players g) start start)"

definition race_advance_turn :: "race_server \<Rightarrow> race_server" where
  "race_advance_turn sv =
     (let g = r_game sv;
          next = race_get_next_active_player g (r_current_turn g)
      in if next \<ge> 0
         then race_enqueue_log (LogTurnAdvanced (next + 1) (rp_name (r_players g ! nat next)))
                (sv\<lparr>r_game := g\<lparr>r_current_turn := next\<rparr>\<rparr>)
         else sv)"

definition race_promote_waiting :: "RacePlayer list \<Rightarrow> RacePlayer list" where
  "race_promote_waiting ps0 =
     fold (\<lambda>i ps. if rp_state (ps ! i) = PLAYER_WAITING then ps[i := (ps ! i)\<lparr>rp_state := PLAYER_ACTIVE\<rparr>] else ps)
          [0..<nat MAX_PLAYERS] ps0"

text \<open>\<^verbatim>\<open>MSG_JOIN\<close> of the dice server.\<close>

definition race_handle_join :: "nat \<Rightarrow> RaceMessage \<Rightarrow> race_server \<Rightarrow> race_server \<times> RaceMessage" where
  "race_handle_join player_id msg sv0 =
     (let g = r_game sv0;
          player = (r_players g ! player_id)
                     \<lparr>rp_name := take (MAX_NAME_LEN - 1) (rm_player_name msg),
                      rp_state := PLAYER_WAITING, rp_score := 0\<rparr>;
          g = g\<lparr>r_players := (r_players g)[player_id := player], r_num_players := r_num_players g + 1\<rparr>;
          response = race_zero_message
                       \<lparr>rm_type := RMSG_PLAYER_JOINED, rm_player_id := int player_id,
                        rm_text := RTextWelcome (rp_name player) (int player_id + 1)
                                     (MIN_PLAYERS - r_num_players g)\<rparr>;
          sv = race_enqueue_log (LogPlayerJoined (int player_id + 1) (rp_name player) (r_num_players g))
                 (sv0\<lparr>r_game := g\<rparr>);
          sv = (if r_num_players g \<ge> MIN_PLAYERS \<and> r_game_state g = GAME_WAITING_FOR_PLAYERS
                then (let g = g\<lparr>r_game_state := GAME_IN_PROGRESS\<rparr>;
                          g = g\<lparr>r_current_turn := 0\<rparr>;
                          g = g\<lparr>r_players := race_promote_waiting (r_players g)\<rparr>;
                          g = g\<lparr>r_current_turn := race_get_next_active_player g (- 1)\<rparr>
                      in race_enqueue_log (LogRaceGameStarted (r_num_players g) (r_current_turn g + 1))
                           (sv\<lparr>r_game := g\<rparr>))
                else sv)
      in (sv, response))"

text \<open>
  The critical section of \<^verbatim>\<open>MSG_ROLL\<close>; \<open>rand1\<close> and \<open>rand2\<close> are the two results of
  \<^verbatim>\<open>rand()\<close>. The third component tells whether the game continues.
\<close>

definition roll_critical :: "nat \<Rightarrow> nat \<Rightarrow> nat \<Rightarrow> race_server \<Rightarrow> race_server \<times> RaceMessage \<times> bool" where
  "roll_critical player_id rand1 rand2 sv0 =
     (let g = r_game sv0; response = race_zero_message in
      if r_game_state g \<noteq> GAME_IN_PROGRESS then
        (sv0, response\<lparr>rm_type := RMSG_ERROR, rm_text := RTextGameNotInProgress\<rparr>, False)
      else if r_current_turn g \<noteq> int player_id then
        (sv0,
         response\<lparr>rm_type := RMSG_WAIT,
                  rm_text := RTextNotYourTurn (r_current_turn g + 1)
                               (rp_name (r_players g ! nat (r_current_turn g)))\<rparr>,
         False)
      else
        (let die1 = (int rand1 smod 6) + 1;
             die2 = (int rand2 smod 6) + 1;
             roll_total = die1 + die2;
             player = r_players g ! player_id;
             (player, response, message) =
               (if die1 = 1 \<and> die2 = 1
                then (player\<lparr>rp_score := 0\<rparr>,
                      response\<lparr>rm_type := RMSG_ROLL_RESULT, rm_value := 0,
                               rm_text := RTextSnakeEyes die1 die2\<rparr>,
                      LogRaceSnakeEyes (int player_id + 1) (rp_name player))
                else (player\<lparr>rp_score := rp_score player + roll_total\<rparr>,
                      response\<lparr>rm_type := RMSG_ROLL_RESULT, rm_value := rp_score player + roll_total,
                               rm_text := RTextRolled die1 die2 roll_total (rp_score player + roll_total)\<rparr>,
                      LogRaceRolled (int player_id + 1) (rp_name player) die1 die2 roll_total
                        (rp_score player + roll_total)));
             g = g\<lparr>r_players := (r_players g)[player_id := player]\<rparr>;
             sv = race_enqueue_log message (sv0\<lparr>r_game := g\<rparr>)
         in if rp_score player \<ge> WINNING_SCORE then
              (let g = g\<lparr>r_winner_id := int player_id\<rparr>;
                   g = g\<lparr>r_game_state := GAME_FINISHED\<rparr>;
                   response = response\<lparr>rm_type := RMSG_GAME_OVER, rm_text := RTextYouWon (rp_score player)\<rparr>;
                   sv = race_enqueue_log (LogRaceGameOver (int player_id + 1) (rp_name player) (rp_score player))
                          (sv\<lparr>r_game := g\<rparr>)
               in (update_score (rp_name player) sv, response, False))
            else (sv, response, True)))"

text \<open>The whole \<^verbatim>\<open>MSG_ROLL\<close> case: a game that continues advances the turn.\<close>

definition handle_roll :: "nat \<Rightarrow> nat \<Rightarrow> nat \<Rightarrow> race_server \<Rightarrow> race_server \<times> RaceMessage" where
  "handle_roll player_id rand1 rand2 sv0 =
     (let (sv, response, continues) = roll_critical player_id rand1 rand2 sv0
      in if continues then (race_advance_turn sv, response) else (sv, response))"

section \<open>Notions used in the statements\<close>

subsection \<open>Round robin\<close>

text \<open>
  The slots in the state Active, in ascending order, and the first \<open>n\<close> results of
  applying \<open>get_next_active_player\<close> repeatedly, each time to the previous result.
\<close>

definition is_active :: "SharedGameState \<Rightarrow> int \<Rightarrow> bool" where
  "is_active g i \<longleftrightarrow> p_state (players g ! nat i) = PLAYER_ACTIVE"

definition active_slots :: "SharedGameState \<Rightarrow> int list" where
  "active_slots g = filter (is_active g) [0..MAX_PLAYERS - 1]"

fun turns :: "SharedGameState \<Rightarrow> int \<Rightarrow> nat \<Rightarrow> int list" where
  "turns g current 0 = []"
| "turns g current (Suc n) =
     (let next = get_next_active_player g current in next # turns g next n)"

subsection \<open>Lock traces\<close>

text \<open>
  The locks a thread holds after a trace, given those it held before, and the property
  that it never holds more than one lock.
\<close>

fun locks_held :: "lock list \<Rightarrow> lock_event list \<Rightarrow> lock list" where
  "locks_held held [] = held"
| "locks_held held (Acquire l # tr) = locks_held (l # held) tr"
| "locks_held held (Release l # tr) = locks_held (remove1 l held) tr"

fun at_most_one_lock :: "lock list \<Rightarrow> lock_event list \<Rightarrow> bool" where
  "at_most_one_lock held [] = (length held \<le> 1)"
| "at_most_one_lock held (Acquire l # tr) = (length held \<le> 1 \<and> at_most_one_lock (l # held) tr)"
| "at_most_one_lock held (Release l # tr) = (length held \<le> 1 \<and> at_most_one_lock (remove1 l held) tr)"

text \<open>
  The order kept by code that no signal interrupts: a lock is acquired either with no
  lock held, or it is the log lock and the game lock alone is held; and only a lock that
  is held is released.
\<close>

fun only_log_nested :: "lock list \<Rightarrow> lock_event list \<Rightarrow> bool" where
  "only_log_nested held [] = True"
| "only_log_nested held (Acquire l # tr) =
     ((held = [] \<or> (held = [GameLock] \<and> l = LogLock)) \<and> only_log_nested (l # held) tr)"
| "only_log_nested held (Release l # tr) =
     (l \<in> set held \<and> only_log_nested (remove1 l held) tr)"

text \<open>
  A signal interrupts a thread at any point, also inside \<^verbatim>\<open>enqueue_log\<close> or a critical
  section of the game, and \<^verbatim>\<open>sigint_handler\<close> then runs on top of the locks the thread
  holds. \<^verbatim>\<open>spin_lock\<close> (lines 174--178) loops on a test-and-set until the lock is free,
  and the interrupted thread resumes only when the handler returns: so a handler that
  asks for a lock its own thread holds spins for ever, and the thread makes no further
  step. \<open>sigint_run\<close> gives the lock operations of the handler when the thread holds
  \<open>held\<close>, and whether it returns; with no lock held they are those of
  \<open>sigint_handler\<close>. \<open>deliver writable n tr\<close> is the trace of a thread whose trace without
  the signal is \<open>tr\<close>, when a signal reaches it after \<open>n\<close> of its lock operations. Folding
  \<open>deliver\<close> over a list of positions delivers several signals, one inside the handler
  of another when the position falls there. The trace of a run lists the critical
  sections of all threads one after the other, and no lock is held between them; so the
  locks held at a position of it are those of the thread that runs there, and \<open>deliver\<close>
  gives the signal to that thread.
\<close>

definition sigint_run :: "bool \<Rightarrow> lock list \<Rightarrow> lock_event list \<times> bool" where
  "sigint_run writable held =
     (if writable \<and> ScoresLock \<in> set held then ([], False)
      else let save = (if writable then [Acquire ScoresLock, Release ScoresLock] else [])
           in if LogLock \<in> set held then (save, False)
              else (save @ [Acquire LogLock, Release LogLock], True))"

definition deliver :: "bool \<Rightarrow> nat \<Rightarrow> lock_event list \<Rightarrow> lock_event list" where
  "deliver writable n tr =
     (let (h, returns) = sigint_run writable (locks_held [] (take n tr))
      in if returns then take n tr @ h @ drop n tr else take n tr @ h)"

text \<open>
  What is kept when signals arrive: the game lock is acquired only with no lock held, no
  lock is acquired by a thread that holds it, and only a lock that is held is released.
\<close>

fun game_lock_first :: "lock list \<Rightarrow> lock_event list \<Rightarrow> bool" where
  "game_lock_first held [] = True"
| "game_lock_first held (Acquire l # tr) =
     ((if l = GameLock then held = [] else l \<notin> set held) \<and> game_lock_first (l # held) tr)"
| "game_lock_first held (Release l # tr) =
     (l \<in> set held \<and> game_lock_first (remove1 l held) tr)"

text \<open>
  A piece of trace that keeps the order of uninterrupted code and gives back every lock it
  takes, when run with the locks \<open>held\<close>; a step of the server that adds such a piece
  with the game lock held or with no lock held (\<open>inner_step\<close>), or with no lock held
  (\<open>outer_step\<close>).
\<close>

definition balanced_under :: "lock list \<Rightarrow> lock_event list \<Rightarrow> bool" where
  "balanced_under held seg \<longleftrightarrow> only_log_nested held seg \<and> locks_held held seg = held"

definition inner_step :: "server \<Rightarrow> server \<Rightarrow> bool" where
  "inner_step sv sv' \<longleftrightarrow>
     (\<exists>seg. lock_trace sv' = lock_trace sv @ seg \<and> balanced_under [GameLock] seg \<and> balanced_under [] seg)"

definition outer_step :: "server \<Rightarrow> server \<Rightarrow> bool" where
  "outer_step sv sv' \<longleftrightarrow> (\<exists>seg. lock_trace sv' = lock_trace sv @ seg \<and> balanced_under [] seg)"

text \<open>
  While the game is in progress the puzzle has empty cells left: the handler that fills
  the last one ends the game in the same critical section.
\<close>

definition puzzle_open :: "SharedGameState \<Rightarrow> bool" where
  "puzzle_open g \<longleftrightarrow> game_state g \<noteq> GAME_IN_PROGRESS \<or> 0 < cells_remaining g"

subsection \<open>Invariants of the turn\<close>


definition not_in_turn :: "nat \<Rightarrow> SharedGameState \<Rightarrow> bool" where
  "not_in_turn p g \<longleftrightarrow>
     length (players g) = 5 \<and> game_state g \<noteq> GAME_WAITING_FOR_PLAYERS \<and>
     p_state (players g ! p) \<noteq> PLAYER_ACTIVE \<and> current_turn g \<noteq> int p"


definition place_admissible :: "nat \<Rightarrow> GameMessage \<Rightarrow> SharedGameState \<Rightarrow> bool" where
  "place_admissible player_id msg g \<longleftrightarrow>
     game_state g = GAME_IN_PROGRESS \<and> current_turn g = int player_id \<and>
     0 \<le> m_row msg \<and> m_row msg < GRID_SIZE \<and> 0 \<le> m_col msg \<and> m_col msg < GRID_SIZE \<and>
     1 \<le> m_value msg \<and> m_value msg \<le> 9 \<and>
     c_is_fixed (grid g ! nat (m_row msg) ! nat (m_col msg)) = 0 \<and>
     c_value (grid g ! nat (m_row msg) ! nat (m_col msg)) = EMPTY_CELL"

subsection \<open>Concrete games\<close>

text \<open>
  A solved grid (the rows are shifts of 1..9) with its first 40 cells emptied, as
  \<^verbatim>\<open>generate_puzzle\<close> may leave it at difficulty 2; requests; and the game of Ann, Bob
  and Cy, who join slots 0, 1 and 2.
\<close>

definition example_solution :: "nat \<Rightarrow> nat \<Rightarrow> int" where
  "example_solution r c = int ((3 * (r mod 3) + r div 3 + c) mod 9) + 1"

definition example_cell :: "nat \<Rightarrow> nat \<Rightarrow> SudokuCell" where
  "example_cell r c =
     (if 9 * r + c < 40
      then \<lparr>c_value = EMPTY_CELL, c_solution = example_solution r c, c_is_fixed = 0, c_placed_by = - 1\<rparr>
      else \<lparr>c_value = example_solution r c, c_solution = example_solution r c, c_is_fixed = 1,
            c_placed_by = - 1\<rparr>)"

definition example_puzzle :: "SudokuCell list list" where
  "example_puzzle = map (\<lambda>r. map (example_cell r) [0..<9]) [0..<9]"

definition join_request :: "string \<Rightarrow> GameMessage" where
  "join_request name = zero_message\<lparr>m_type := MSG_JOIN, m_player_name := name\<rparr>"

definition place_request :: "int \<Rightarrow> int \<Rightarrow> int \<Rightarrow> GameMessage" where
  "place_request row col v = zero_message\<lparr>m_type := MSG_PLACE, m_row := row, m_col := col, m_value := v\<rparr>"

definition three_joins :: "event list" where
  "three_joins = [EvJoin 0 (join_request ''Ann'') example_puzzle,
                  EvJoin 1 (join_request ''Bob'') example_puzzle,
                  EvJoin 2 (join_request ''Cy'') example_puzzle]"

definition example_player :: "nat \<Rightarrow> string \<Rightarrow> int \<Rightarrow> int \<Rightarrow> int \<Rightarrow> PlayerState \<Rightarrow> Player" where
  "example_player i name sc correct wrong st = \<lparr>p_id = int i, p_name = name, p_score = sc,
     p_correct_placements = correct, p_wrong_placements = wrong, p_state = st, p_handler_pid = 0\<rparr>"

definition example_players :: "Player list" where
  "example_players = [example_player 0 ''Ann'' 0 0 0 PLAYER_ACTIVE, example_player 1 ''Bob'' 0 0 0 PLAYER_ACTIVE,
     example_player 2 ''Cy'' 0 0 0 PLAYER_ACTIVE, initial_player 3, initial_player 4]"

text \<open>The game of Ann, Bob and Cy just started: it is Ann's turn.\<close>

definition example_game :: SharedGameState where
  "example_game = \<lparr>game_state = GAME_IN_PROGRESS, num_players = 3, current_turn = 0,
     winner_id = - 1, grid = example_puzzle, cells_remaining = 40, players = example_players,
     turn_signal = 1, game_reset_requested = 0, server_shutdown = 0\<rparr>"

definition example_server :: server where
  "example_server = (setup_shared_memory True)\<lparr>game := example_game\<rparr>"

text \<open>The game just started, after Ann, who holds the turn, has quit.\<close>

definition ann_left_game :: SharedGameState where
  "ann_left_game = example_game
     \<lparr>players := example_players[0 := (example_players ! 0)\<lparr>p_state := PLAYER_DISCONNECTED\<rparr>],
      num_players := 2\<rparr>"

definition ann_left_server :: server where
  "ann_left_server = (setup_shared_memory True)\<lparr>game := ann_left_game\<rparr>"

text \<open>The game just started, after Bob and Cy have quit: Ann is the only Active player.\<close>

definition lone_game :: SharedGameState where
  "lone_game = example_game
     \<lparr>players := [example_player 0 ''Ann'' 0 0 0 PLAYER_ACTIVE,
                  example_player 1 ''Bob'' 0 0 0 PLAYER_DISCONNECTED,
                  example_player 2 ''Cy'' 0 0 0 PLAYER_DISCONNECTED, initial_player 3, initial_player 4],
      num_players := 1\<rparr>"

definition lone_server :: server where
  "lone_server = (setup_shared_memory True)\<lparr>game := lone_game\<rparr>"

text \<open>
  The same game after twenty rounds, with one empty cell left, at row 0 and column 0,
  whose solution is 1. Ann has placed 20 correct values, Bob 19 and a wrong one, Cy 20
  wrong ones; it is Ann's turn.
\<close>

definition endgame_cell :: "nat \<Rightarrow> nat \<Rightarrow> SudokuCell" where
  "endgame_cell r c =
     (if r = 0 \<and> c = 0
      then \<lparr>c_value = EMPTY_CELL, c_solution = example_solution r c, c_is_fixed = 0, c_placed_by = - 1\<rparr>
      else \<lparr>c_value = example_solution r c, c_solution = example_solution r c,
            c_is_fixed = (if 9 * r + c < 40 then 0 else 1),
            c_placed_by = (if 9 * r + c \<le> 20 then 0 else if 9 * r + c < 40 then 1 else - 1)\<rparr>)"

definition endgame_players :: "Player list" where
  "endgame_players = [example_player 0 ''Ann'' 200 20 0 PLAYER_ACTIVE,
     example_player 1 ''Bob'' 185 19 1 PLAYER_ACTIVE,
     example_player 2 ''Cy'' (- 100) 0 20 PLAYER_ACTIVE, initial_player 3, initial_player 4]"

definition endgame_server :: server where
  "endgame_server = (setup_shared_memory True)
     \<lparr>game := example_game\<lparr>grid := map (\<lambda>r. map (endgame_cell r) [0..<9]) [0..<9],
                            cells_remaining := 1, players := endgame_players, turn_signal := 61\<rparr>\<rparr>"

text \<open>
  The end of a game that went badly: one empty cell, Ann at 20 correct and 242 wrong
  placements, Bob at 19 and 243, Cy at 0 and 262; it is Ann's turn.
\<close>

definition low_endgame_players :: "Player list" where
  "low_endgame_players = [example_player 0 ''Ann'' (- 1010) 20 242 PLAYER_ACTIVE,
     example_player 1 ''Bob'' (- 1025) 19 243 PLAYER_ACTIVE,
     example_player 2 ''Cy'' (- 1310) 0 262 PLAYER_ACTIVE, initial_player 3, initial_player 4]"

definition low_endgame_server :: server where
  "low_endgame_server = endgame_server
     \<lparr>game := (game endgame_server)\<lparr>players := low_endgame_players, turn_signal := 787\<rparr>\<rparr>"

text \<open>
  The dice server as its \<^verbatim>\<open>setup_shared_memory\<close> leaves it, and a game of Ann, Bob and
  Cy in which Ann, at 95 points, is to roll.
\<close>

definition race_initial_player :: "nat \<Rightarrow> RacePlayer" where
  "race_initial_player i = \<lparr>rp_id = int i, rp_name = [], rp_score = 0,
     rp_state = PLAYER_DISCONNECTED, rp_handler_pid = 0\<rparr>"

definition race_setup_shared_memory :: "bool \<Rightarrow> race_server" where
  "race_setup_shared_memory writable =
     \<lparr>r_game = \<lparr>r_game_state = GAME_WAITING_FOR_PLAYERS, r_num_players = 0, r_current_turn = - 1,
                r_winner_id = - 1, r_players = map race_initial_player [0..<nat MAX_PLAYERS],
                r_game_reset_requested = 0, r_server_shutdown = 0\<rparr>,
      r_log_queue = \<lparr>lq_entries = replicate (nat LOG_QUEUE_SIZE) LogZero, lq_head = 0, lq_tail = 0,
                     lq_count = 0, lq_shutdown = 0\<rparr>,
      r_scores = [], r_scores_file = [], r_scores_file_writable = writable\<rparr>"

definition race_example_player :: "nat \<Rightarrow> string \<Rightarrow> int \<Rightarrow> RacePlayer" where
  "race_example_player i name sc = \<lparr>rp_id = int i, rp_name = name, rp_score = sc,
     rp_state = PLAYER_ACTIVE, rp_handler_pid = 0\<rparr>"

definition race_example_server :: race_server where
  "race_example_server = (race_setup_shared_memory True)
     \<lparr>r_game := \<lparr>r_game_state = GAME_IN_PROGRESS, r_num_players = 3, r_current_turn = 0,
                 r_winner_id = - 1,
                 r_players = [race_example_player 0 ''Ann'' 95, race_example_player 1 ''Bob'' 40,
                              race_example_player 2 ''Cy'' 62, race_initial_player 3,
                              race_initial_player 4],
                 r_game_reset_requested = 0, r_server_shutdown = 0\<rparr>\<rparr>"

definition race_join_request :: "string \<Rightarrow> RaceMessage" where
  "race_join_request name = race_zero_message\<lparr>rm_type := RMSG_JOIN, rm_player_name := name\<rparr>"

section \<open>Properties\<close>

declare get_next_active_player_loop.simps [simp del]
declare race_get_next_active_player_loop.simps [simp del]

lemma upt_5: "[0..<5] = [0, 1, 2, 3, 4::nat]"
  by (simp add: upt_rec)

lemma upto_0_4: "[0..4] = [0, 1, 2, 3, 4::int]"
  by (simp add: upto_rec1 upto.simps)

lemma gnap_start:
  "get_next_active_player g current =
     get_next_active_player_loop (players g) ((current + 1) smod 5) ((current + 1) smod 5)"
  by (simp add: get_next_active_player_def Let_def)

lemma gnap_loop_unroll:
  "get_next_active_player_loop ps 0 0 =
     (if p_state (ps ! 0) = PLAYER_ACTIVE then 0 else if p_state (ps ! 1) = PLAYER_ACTIVE then 1
      else if p_state (ps ! 2) = PLAYER_ACTIVE then 2 else if p_state (ps ! 3) = PLAYER_ACTIVE then 3
      else if p_state (ps ! 4) = PLAYER_ACTIVE then 4 else - 1)"
  "get_next_active_player_loop ps 1 1 =
     (if p_state (ps ! 1) = PLAYER_ACTIVE then 1 else if p_state (ps ! 2) = PLAYER_ACTIVE then 2
      else if p_state (ps ! 3) = PLAYER_ACTIVE then 3 else if p_state (ps ! 4) = PLAYER_ACTIVE then 4
      else if p_state (ps ! 0) = PLAYER_ACTIVE then 0 else - 1)"
  "get_next_active_player_loop ps 2 2 =
     (if p_state (ps ! 2) = PLAYER_ACTIVE then 2 else if p_state (ps ! 3) = PLAYER_ACTIVE then 3
      else if p_state (ps ! 4) = PLAYER_ACTIVE then 4 else if p_state (ps ! 0) = PLAYER_ACTIVE then 0
      else if p_state (ps ! 1) = PLAYER_ACTIVE then 1 else - 1)"
  "get_next_active_player_loop ps 3 3 =
     (if p_state (ps ! 3) = PLAYER_ACTIVE then 3 else if p_state (ps ! 4) = PLAYER_ACTIVE then 4
      else if p_state (ps ! 0) = PLAYER_ACTIVE then 0 else if p_state (ps ! 1) = PLAYER_ACTIVE then 1
      else if p_state (ps ! 2) = PLAYER_ACTIVE then 2 else - 1)"
  "get_next_active_player_loop ps 4 4 =
     (if p_state (ps ! 4) = PLAYER_ACTIVE then 4 else if p_state (ps ! 0) = PLAYER_ACTIVE then 0
      else if p_state (ps ! 1) = PLAYER_ACTIVE then 1 else if p_state (ps ! 2) = PLAYER_ACTIVE then 2
      else if p_state (ps ! 3) = PLAYER_ACTIVE then 3 else - 1)"
  by (simp_all add: get_next_active_player_loop.simps smod_int_alt_def Let_def)

lemma start_cases:
  assumes "- 1 \<le> (current::int)"
  obtains "(current + 1) smod 5 = 0" | "(current + 1) smod 5 = 1" | "(current + 1) smod 5 = 2"
    | "(current + 1) smod 5 = 3" | "(current + 1) smod 5 = 4"
proof -
  define m where "m = (current + 1) mod 5"
  have e: "(current + 1) smod 5 = m"
    using assms by (auto simp: smod_int_alt_def sgn_if m_def)
  have "0 \<le> m" "m < 5" by (simp_all add: m_def)
  then have "m = 0 \<or> m = 1 \<or> m = 2 \<or> m = 3 \<or> m = 4" by linarith
  then show ?thesis using that e by auto
qed

lemma gnap_loop_result:
  "get_next_active_player_loop ps start idx = - 1 \<or>
   (0 \<le> get_next_active_player_loop ps start idx \<and> get_next_active_player_loop ps start idx < 5 \<and>
    p_state (ps ! nat (get_next_active_player_loop ps start idx)) = PLAYER_ACTIVE)"
proof (induction ps start idx rule: get_next_active_player_loop.induct)
  case (1 ps start idx)
  show ?case
  proof (cases "start < 0 \<or> MAX_PLAYERS \<le> start \<or> idx < 0 \<or> MAX_PLAYERS \<le> idx")
    case True
    then show ?thesis by (simp add: get_next_active_player_loop.simps[of ps start idx])
  next
    case out: False
    show ?thesis
    proof (cases "p_state (ps ! nat idx) = PLAYER_ACTIVE")
      case True
      then show ?thesis using out by (simp add: get_next_active_player_loop.simps[of ps start idx])
    next
      case na: False
      show ?thesis
      proof (cases "(idx + 1) smod MAX_PLAYERS \<noteq> start")
        case True
        have "get_next_active_player_loop ps start idx
              = get_next_active_player_loop ps start ((idx + 1) smod MAX_PLAYERS)"
          using out na True by (simp add: get_next_active_player_loop.simps[of ps start idx])
        then show ?thesis using 1[OF out na refl True] by simp
      next
        case False
        then show ?thesis using out na by (simp add: get_next_active_player_loop.simps[of ps start idx])
      qed
    qed
  qed
qed

lemma gnap_result:
  "get_next_active_player g current = - 1 \<or>
   (0 \<le> get_next_active_player g current \<and> get_next_active_player g current < 5 \<and>
    is_active g (get_next_active_player g current))"
  using gnap_loop_result[of "players g" "(current + 1) smod 5" "(current + 1) smod 5"]
  by (simp add: gnap_start is_active_def)

lemma active_slots_eq:
  "active_slots g = filter (is_active g) [0, 1, 2, 3, 4]"
  by (simp add: active_slots_def upto_0_4)

lemma is_active_simps:
  "is_active g 0 \<longleftrightarrow> p_state (players g ! 0) = PLAYER_ACTIVE"
  "is_active g 1 \<longleftrightarrow> p_state (players g ! 1) = PLAYER_ACTIVE"
  "is_active g 2 \<longleftrightarrow> p_state (players g ! 2) = PLAYER_ACTIVE"
  "is_active g 3 \<longleftrightarrow> p_state (players g ! 3) = PLAYER_ACTIVE"
  "is_active g 4 \<longleftrightarrow> p_state (players g ! 4) = PLAYER_ACTIVE"
  by (simp_all add: is_active_def)

lemma gnap_none_iff:
  assumes "- 1 \<le> current"
  shows "get_next_active_player g current = - 1 \<longleftrightarrow> active_slots g = []"
  using assms
  by (rule start_cases) (simp_all add: gnap_start gnap_loop_unroll active_slots_eq is_active_simps)

lemma gnap_unroll:
  "get_next_active_player g (- 1) = get_next_active_player_loop (players g) 0 0"
  "get_next_active_player g 0 = get_next_active_player_loop (players g) 1 1"
  "get_next_active_player g 1 = get_next_active_player_loop (players g) 2 2"
  "get_next_active_player g 2 = get_next_active_player_loop (players g) 3 3"
  "get_next_active_player g 3 = get_next_active_player_loop (players g) 4 4"
  "get_next_active_player g 4 = get_next_active_player_loop (players g) 0 0"
  by (simp_all add: gnap_start smod_int_alt_def)

lemma upto_lists:
  "[0..- 1] = ([]::int list)" "[0..0] = [0::int]" "[0..1] = [0,1::int]" "[0..2] = [0,1,2::int]" "[0..3] = [0,1,2,3::int]"
  "[1..4] = [1,2,3,4::int]" "[2..4] = [2,3,4::int]" "[3..4] = [3,4::int]" "[4..4] = [4::int]" "[5..4] = ([]::int list)"
  by (simp_all add: upto_rec1 upto.simps)

lemma turns_order:
  assumes "- 1 \<le> current" "current < MAX_PLAYERS"
  shows "turns g current (length (active_slots g))
         = filter (is_active g) ([current + 1..MAX_PLAYERS - 1] @ [0..current])"
proof -
  from assms consider "current = - 1" | "current = 0" | "current = 1" | "current = 2"
    | "current = 3" | "current = 4"
    by linarith
  then show ?thesis
  proof cases
    case 1
    show ?thesis unfolding 1
      by (cases "p_state (players g ! 0) = PLAYER_ACTIVE"; cases "p_state (players g ! 1) = PLAYER_ACTIVE";
          cases "p_state (players g ! 2) = PLAYER_ACTIVE"; cases "p_state (players g ! 3) = PLAYER_ACTIVE";
          cases "p_state (players g ! 4) = PLAYER_ACTIVE")
        (simp_all add: active_slots_eq is_active_simps gnap_unroll gnap_loop_unroll upto_lists upto_0_4 Let_def)
  next
    case 2
    show ?thesis unfolding 2
      by (cases "p_state (players g ! 0) = PLAYER_ACTIVE"; cases "p_state (players g ! 1) = PLAYER_ACTIVE";
          cases "p_state (players g ! 2) = PLAYER_ACTIVE"; cases "p_state (players g ! 3) = PLAYER_ACTIVE";
          cases "p_state (players g ! 4) = PLAYER_ACTIVE")
        (simp_all add: active_slots_eq is_active_simps gnap_unroll gnap_loop_unroll upto_lists upto_0_4 Let_def)
  next
    case 3
    show ?thesis unfolding 3
      by (cases "p_state (players g ! 0) = PLAYER_ACTIVE"; cases "p_state (players g ! 1) = PLAYER_ACTIVE";
          cases "p_state (players g ! 2) = PLAYER_ACTIVE"; cases "p_state (players g ! 3) = PLAYER_ACTIVE";
          cases "p_state (players g ! 4) = PLAYER_ACTIVE")
        (simp_all add: active_slots_eq is_active_simps gnap_unroll gnap_loop_unroll upto_lists upto_0_4 Let_def)
  next
    case 4
    show ?thesis unfolding 4
      by (cases "p_state (players g ! 0) = PLAYER_ACTIVE"; cases "p_state (players g ! 1) = PLAYER_ACTIVE";
          cases "p_state (players g ! 2) = PLAYER_ACTIVE"; cases "p_state (players g ! 3) = PLAYER_ACTIVE";
          cases "p_state (players g ! 4) = PLAYER_ACTIVE")
        (simp_all add: active_slots_eq is_active_simps gnap_unroll gnap_loop_unroll upto_lists upto_0_4 Let_def)
  next
    case 5
    show ?thesis unfolding 5
      by (cases "p_state (players g ! 0) = PLAYER_ACTIVE"; cases "p_state (players g ! 1) = PLAYER_ACTIVE";
          cases "p_state (players g ! 2) = PLAYER_ACTIVE"; cases "p_state (players g ! 3) = PLAYER_ACTIVE";
          cases "p_state (players g ! 4) = PLAYER_ACTIVE")
        (simp_all add: active_slots_eq is_active_simps gnap_unroll gnap_loop_unroll upto_lists upto_0_4 Let_def)
  next
    case 6
    show ?thesis unfolding 6
      by (cases "p_state (players g ! 0) = PLAYER_ACTIVE"; cases "p_state (players g ! 1) = PLAYER_ACTIVE";
          cases "p_state (players g ! 2) = PLAYER_ACTIVE"; cases "p_state (players g ! 3) = PLAYER_ACTIVE";
          cases "p_state (players g ! 4) = PLAYER_ACTIVE")
        (simp_all add: active_slots_eq is_active_simps gnap_unroll gnap_loop_unroll upto_lists upto_0_4 Let_def)
  qed
qed

lemma rotation_set:
  assumes "- 1 \<le> (current::int)" "current < 5"
  shows "set ([current + 1..4] @ [0..current]) = {0..4}"
  using assms by auto

lemma rotation_distinct: "distinct ([(current::int) + 1..4] @ [0..current])"
  by auto

text \<open>
  Claim C7. For every configuration of the player states and every starting index (the value
  \<open>-1\<close> of an unset turn or a slot 0..4), applying \<open>get_next_active_player\<close>
  repeatedly as many times as there are Active slots visits the Active slots in ascending
  order from the slot after the start, wrapping around: each Active slot exactly once, no
  other slot, and, when the start is itself Active, the start last. The function returns
  \<open>-1\<close> if and only if no slot is Active.
\<close>

theorem C7_round_robin:
  assumes "- 1 \<le> current" "current < MAX_PLAYERS"
  shows "(get_next_active_player g current = - 1 \<longleftrightarrow> active_slots g = [])
       \<and> turns g current (length (active_slots g))
           = filter (is_active g) ([current + 1..MAX_PLAYERS - 1] @ [0..current])
       \<and> distinct (turns g current (length (active_slots g)))
       \<and> set (turns g current (length (active_slots g))) = set (active_slots g)
       \<and> (0 \<le> current \<and> is_active g current \<longrightarrow>
            last (turns g current (length (active_slots g))) = current)"
proof -
  let ?t = "turns g current (length (active_slots g))"
  have ord: "?t = filter (is_active g) ([current + 1..MAX_PLAYERS - 1] @ [0..current])"
    using assms by (rule turns_order)
  have d: "distinct ?t"
    unfolding ord using rotation_distinct[of current] by (simp del: filter_append distinct_append)
  have "set ?t = {i \<in> set ([current + 1..4] @ [0..current]). is_active g i}"
    by (simp only: ord set_filter) simp
  also have "\<dots> = {i \<in> {0..4}. is_active g i}"
    by (simp only: rotation_set[OF assms])
  also have "\<dots> = set (active_slots g)"
    by (simp add: active_slots_def)
  finally have s: "set ?t = set (active_slots g)" .
  have l: "last ?t = current" if "0 \<le> current" "is_active g current"
  proof -
    have "[0..current] = [0..current - 1] @ [current]"
      using that(1) by (simp add: upto_rec2)
    then have "?t = filter (is_active g) ([current + 1..4] @ [0..current - 1]) @ [current]"
      unfolding ord using that(2) by simp
    then show ?thesis by simp
  qed
  show ?thesis using gnap_none_iff[OF assms(1)] ord d s l by blast
qed

lemma example_active:
  "active_slots example_game = [0, 1, 2]" "is_active example_game 0"
  by (simp_all add: active_slots_eq is_active_simps example_game_def example_players_def
      example_player_def initial_player_def)

theorem C7_round_robin_witness:
  "(- 1 \<le> (0::int) \<and> (0::int) < MAX_PLAYERS)
   \<and> turns example_game 0 (length (active_slots example_game)) = [1, 2, 0]
   \<and> last (turns example_game 0 (length (active_slots example_game))) = 0
   \<and> get_next_active_player example_game 0 \<noteq> - 1"
proof -
  have more: "is_active example_game 1" "is_active example_game 2"
    "\<not> is_active example_game 3" "\<not> is_active example_game 4"
    by (simp_all add: is_active_simps example_game_def example_players_def
        example_player_def initial_player_def)
  show ?thesis
    using C7_round_robin[of 0 example_game]
    by (simp add: example_active more upto_lists)
qed

subsection \<open>What the building blocks leave unchanged\<close>

lemma spin_lock_simps [simp]:
  "game (spin_lock l sv) = game sv"
  "log_queue (spin_lock l sv) = log_queue sv"
  "scores (spin_lock l sv) = scores sv"
  "scores_file (spin_lock l sv) = scores_file sv"
  "scores_file_writable (spin_lock l sv) = scores_file_writable sv"
  "lock_trace (spin_lock l sv) = lock_trace sv @ [Acquire l]"
  by (simp_all add: spin_lock_def)

lemma spin_unlock_simps [simp]:
  "game (spin_unlock l sv) = game sv"
  "log_queue (spin_unlock l sv) = log_queue sv"
  "scores (spin_unlock l sv) = scores sv"
  "scores_file (spin_unlock l sv) = scores_file sv"
  "scores_file_writable (spin_unlock l sv) = scores_file_writable sv"
  "lock_trace (spin_unlock l sv) = lock_trace sv @ [Release l]"
  by (simp_all add: spin_unlock_def)

lemma enqueue_log_simps [simp]:
  "game (enqueue_log m sv) = game sv"
  "scores (enqueue_log m sv) = scores sv"
  "scores_file (enqueue_log m sv) = scores_file sv"
  "scores_file_writable (enqueue_log m sv) = scores_file_writable sv"
  "lock_trace (enqueue_log m sv) = lock_trace sv @ [Acquire LogLock, Release LogLock]"
  by (simp_all add: enqueue_log_def Let_def)

lemma save_scores_simps [simp]:
  "game (save_scores sv) = game sv"
  "log_queue (save_scores sv) = log_queue sv"
  "scores (save_scores sv) = scores sv"
  "scores_file_writable (save_scores sv) = scores_file_writable sv"
  by (simp_all add: save_scores_def Let_def)

lemma update_player_stats_simps [simp]:
  "game (update_player_stats n w c x sv) = game sv"
  "log_queue (update_player_stats n w c x sv) = log_queue sv"
  "scores_file_writable (update_player_stats n w c x sv) = scores_file_writable sv"
  by (simp_all add: update_player_stats_def Let_def)

lemma sigint_handler_simps [simp]:
  "game (sigint_handler sv) = game sv"
  "scores (sigint_handler sv) = scores sv"
  "scores_file_writable (sigint_handler sv) = scores_file_writable sv"
  by (simp_all add: sigint_handler_def Let_def)

lemma logger_iteration_simps [simp]:
  "game (logger_iteration sv) = game sv"
  "scores (logger_iteration sv) = scores sv"
  "scores_file (logger_iteration sv) = scores_file sv"
  "scores_file_writable (logger_iteration sv) = scores_file_writable sv"
  "lock_trace (logger_iteration sv) = lock_trace sv @ [Acquire LogLock, Release LogLock]"
  by (simp_all add: logger_iteration_def Let_def)

lemma load_scores_simps [simp]:
  "game (load_scores file sv) = game sv"
  "scores_file (load_scores file sv) = scores_file sv"
  "scores_file_writable (load_scores file sv) = scores_file_writable sv"
  by (simp_all add: load_scores_def Let_def split: option.splits)

lemma main_shutdown_simps [simp]:
  "game (main_shutdown sv) = game sv"
  "scores (main_shutdown sv) = scores sv"
  "scores_file_writable (main_shutdown sv) = scores_file_writable sv"
  by (simp_all add: main_shutdown_def Let_def)

lemma broadcast_simps [simp]:
  "game (broadcast_turn_notification sv) = game sv"
  "log_queue (broadcast_turn_notification sv) = log_queue sv"
  "scores (broadcast_turn_notification sv) = scores sv"
  "scores_file (broadcast_turn_notification sv) = scores_file sv"
  by (simp_all add: broadcast_turn_notification_def Let_def)

lemma game_advance_turn:
  "game (advance_turn sv) =
     (if get_next_active_player (game sv) (current_turn (game sv)) \<ge> 0
      then (game sv)\<lparr>current_turn := get_next_active_player (game sv) (current_turn (game sv)),
                     turn_signal := turn_signal (game sv) + 1\<rparr>
      else game sv)"
  by (simp add: advance_turn_def Let_def)

lemma advance_turn_simps [simp]:
  "grid (game (advance_turn sv)) = grid (game sv)"
  "cells_remaining (game (advance_turn sv)) = cells_remaining (game sv)"
  "players (game (advance_turn sv)) = players (game sv)"
  "game_state (game (advance_turn sv)) = game_state (game sv)"
  "winner_id (game (advance_turn sv)) = winner_id (game sv)"
  "num_players (game (advance_turn sv)) = num_players (game sv)"
  "scores (advance_turn sv) = scores sv"
  "scores_file (advance_turn sv) = scores_file sv"
  by (simp_all add: advance_turn_def Let_def)

subsection \<open>Placements\<close>

lemma game_place_correct:
  "game (fst (place_correct player_id row col v response sv)) =
     (game sv)\<lparr>grid := (grid (game sv))[nat row := (grid (game sv) ! nat row)
                   [nat col := (grid (game sv) ! nat row ! nat col)\<lparr>c_value := v, c_placed_by := int player_id\<rparr>]],
               cells_remaining := cells_remaining (game sv) - 1,
               players := (players (game sv))[player_id := (players (game sv) ! player_id)
                   \<lparr>p_score := p_score (players (game sv) ! player_id) + POINTS_CORRECT,
                    p_correct_placements := p_correct_placements (players (game sv) ! player_id) + 1\<rparr>]\<rparr>"
  by (simp add: place_correct_def Let_def)

lemma game_place_wrong:
  "game (fst (place_wrong player_id row col v response sv)) =
     (game sv)\<lparr>players := (players (game sv))[player_id := (players (game sv) ! player_id)
                   \<lparr>p_score := p_score (players (game sv) ! player_id) + POINTS_WRONG,
                    p_wrong_placements := p_wrong_placements (players (game sv) ! player_id) + 1\<rparr>]\<rparr>"
  by (simp add: place_wrong_def Let_def)

lemma game_place_resolve:
  "game (fst (place_resolve player_id msg response sv)) =
     (if m_value msg = c_solution (grid (game sv) ! nat (m_row msg) ! nat (m_col msg))
      then (game sv)\<lparr>grid := (grid (game sv))[nat (m_row msg) := (grid (game sv) ! nat (m_row msg))
                   [nat (m_col msg) := (grid (game sv) ! nat (m_row msg) ! nat (m_col msg))
                       \<lparr>c_value := m_value msg, c_placed_by := int player_id\<rparr>]],
               cells_remaining := cells_remaining (game sv) - 1,
               players := (players (game sv))[player_id := (players (game sv) ! player_id)
                   \<lparr>p_score := p_score (players (game sv) ! player_id) + POINTS_CORRECT,
                    p_correct_placements := p_correct_placements (players (game sv) ! player_id) + 1\<rparr>]\<rparr>
      else (game sv)\<lparr>players := (players (game sv))[player_id := (players (game sv) ! player_id)
                   \<lparr>p_score := p_score (players (game sv) ! player_id) + POINTS_WRONG,
                    p_wrong_placements := p_wrong_placements (players (game sv) ! player_id) + 1\<rparr>]\<rparr>)"
  by (simp add: place_resolve_def Let_def game_place_correct game_place_wrong)

lemma place_resolve_others [simp]:
  "scores (fst (place_resolve player_id msg response sv)) = scores sv"
  "scores_file (fst (place_resolve player_id msg response sv)) = scores_file sv"
  "m_type (snd (place_resolve player_id msg response sv)) = MSG_PLACE_RESULT"
  by (simp_all add: place_resolve_def place_correct_def place_wrong_def Let_def)

lemma game_place_game_over:
  "game (fst (place_game_over player_id response sv)) =
     (game sv)\<lparr>winner_id := snd (place_find_winner (players (game sv))), game_state := GAME_FINISHED\<rparr>"
  by (simp add: place_game_over_def Let_def split_def)

lemma place_game_over_others [simp]:
  "scores (fst (place_game_over player_id response sv)) = scores sv"
  "scores_file (fst (place_game_over player_id response sv)) = scores_file sv"
  "m_type (snd (place_game_over player_id response sv)) = MSG_GAME_OVER"
  by (simp_all add: place_game_over_def Let_def split_def)

lemma place_critical_not_in_progress:
  assumes "game_state (game sv) \<noteq> GAME_IN_PROGRESS"
  shows "place_critical player_id msg sv =
     (spin_unlock GameLock (spin_lock GameLock sv),
      zero_message\<lparr>m_type := MSG_ERROR, m_text := TextGameNotInProgress\<rparr>, False)"
  using assms by (simp add: place_critical_def Let_def)

lemma place_critical_not_your_turn:
  assumes "game_state (game sv) = GAME_IN_PROGRESS" "current_turn (game sv) \<noteq> int player_id"
  shows "place_critical player_id msg sv =
     (spin_unlock GameLock (spin_lock GameLock sv),
      zero_message\<lparr>m_type := MSG_WAIT,
                    m_text := TextNotYourTurn (current_turn (game sv) + 1)
                                (p_name (players (game sv) ! nat (current_turn (game sv))))\<rparr>, False)"
  using assms by (simp add: place_critical_def Let_def)

lemma place_critical_rejected:
  assumes "game_state (game sv) = GAME_IN_PROGRESS" "current_turn (game sv) = int player_id"
    "0 \<le> m_row msg" "m_row msg < 9" "0 \<le> m_col msg" "m_col msg < 9"
    "1 \<le> m_value msg" "m_value msg \<le> 9"
    "c_is_fixed (grid (game sv) ! nat (m_row msg) ! nat (m_col msg)) \<noteq> 0
     \<or> c_value (grid (game sv) ! nat (m_row msg) ! nat (m_col msg)) \<noteq> EMPTY_CELL"
  shows "fst (place_critical player_id msg sv) = spin_unlock GameLock (spin_lock GameLock sv)"
    and "m_type (fst (snd (place_critical player_id msg sv))) = MSG_ERROR"
    and "\<not> snd (snd (place_critical player_id msg sv))"
  using assms by (simp_all add: place_critical_def Let_def zero_message_def)

lemma place_critical_accepted:
  assumes "game_state (game sv) = GAME_IN_PROGRESS" "current_turn (game sv) = int player_id"
    "0 \<le> m_row msg" "m_row msg < 9" "0 \<le> m_col msg" "m_col msg < 9"
    "1 \<le> m_value msg" "m_value msg \<le> 9"
    "c_is_fixed (grid (game sv) ! nat (m_row msg) ! nat (m_col msg)) = 0"
    "c_value (grid (game sv) ! nat (m_row msg) ! nat (m_col msg)) = EMPTY_CELL"
  shows "place_critical player_id msg sv =
     (let (sv1, response) = place_resolve player_id msg zero_message (spin_lock GameLock sv)
      in if cells_remaining (game sv1) \<le> 0
         then (let (sv2, response) = place_game_over player_id response sv1 in (sv2, response, False))
         else (spin_unlock GameLock sv1, response, True))"
  using assms by (simp add: place_critical_def Let_def)

lemma handle_place_fields:
  "grid (game (fst (handle_place player_id msg sv))) = grid (game (fst (place_critical player_id msg sv)))"
  "cells_remaining (game (fst (handle_place player_id msg sv))) = cells_remaining (game (fst (place_critical player_id msg sv)))"
  "players (game (fst (handle_place player_id msg sv))) = players (game (fst (place_critical player_id msg sv)))"
  "game_state (game (fst (handle_place player_id msg sv))) = game_state (game (fst (place_critical player_id msg sv)))"
  "winner_id (game (fst (handle_place player_id msg sv))) = winner_id (game (fst (place_critical player_id msg sv)))"
  "scores (fst (handle_place player_id msg sv)) = scores (fst (place_critical player_id msg sv))"
  "scores_file (fst (handle_place player_id msg sv)) = scores_file (fst (place_critical player_id msg sv))"
  "snd (handle_place player_id msg sv) = fst (snd (place_critical player_id msg sv))"
  by (simp_all add: handle_place_def split_def Let_def)

lemma handle_place_stops:
  "\<not> snd (snd (place_critical player_id msg sv)) \<Longrightarrow>
     fst (handle_place player_id msg sv) = fst (place_critical player_id msg sv)"
  by (simp add: handle_place_def split_def Let_def)

lemma place_critical_accepted_fields:
  assumes "game_state (game sv) = GAME_IN_PROGRESS" "current_turn (game sv) = int player_id"
    "0 \<le> m_row msg" "m_row msg < 9" "0 \<le> m_col msg" "m_col msg < 9"
    "1 \<le> m_value msg" "m_value msg \<le> 9"
    "c_is_fixed (grid (game sv) ! nat (m_row msg) ! nat (m_col msg)) = 0"
    "c_value (grid (game sv) ! nat (m_row msg) ! nat (m_col msg)) = EMPTY_CELL"
  shows "grid (game (fst (place_critical player_id msg sv)))
           = grid (game (fst (place_resolve player_id msg zero_message (spin_lock GameLock sv))))"
    and "cells_remaining (game (fst (place_critical player_id msg sv)))
           = cells_remaining (game (fst (place_resolve player_id msg zero_message (spin_lock GameLock sv))))"
    and "players (game (fst (place_critical player_id msg sv)))
           = players (game (fst (place_resolve player_id msg zero_message (spin_lock GameLock sv))))"
  by (simp_all add: place_critical_accepted[OF assms] split_def Let_def game_place_game_over)

text \<open>
  Claim C1. A placement by the player whose turn it is, in a game in progress, with row and
  column in 0..8 and a value in 1..9: on a fixed or filled cell the response is an Error and
  the shared game state is unchanged; a value equal to the solution fills the cell for the
  mover, lowers \<open>cells_remaining\<close> by 1 and raises the mover's score by 10; another value
  leaves the grid and \<open>cells_remaining\<close> as they are and lowers the mover's score by 5.
\<close>

theorem C1_place_resolution:
  assumes wf: "wf_game (game sv)" and pid: "int player_id < MAX_PLAYERS"
    and prog: "game_state (game sv) = GAME_IN_PROGRESS"
    and turn: "current_turn (game sv) = int player_id"
    and row: "0 \<le> m_row msg" "m_row msg < GRID_SIZE" and col: "0 \<le> m_col msg" "m_col msg < GRID_SIZE"
    and val: "1 \<le> m_value msg" "m_value msg \<le> 9"
    and res: "handle_place player_id msg sv = (sv', response)"
    and cell: "cell = grid (game sv) ! nat (m_row msg) ! nat (m_col msg)"
    and mover: "mover = players (game sv) ! player_id"
  shows "(c_is_fixed cell \<noteq> 0 \<or> c_value cell \<noteq> EMPTY_CELL \<longrightarrow>
            m_type response = MSG_ERROR \<and> game sv' = game sv)
       \<and> (c_is_fixed cell = 0 \<and> c_value cell = EMPTY_CELL \<and> m_value msg = c_solution cell \<longrightarrow>
            grid (game sv') ! nat (m_row msg) ! nat (m_col msg)
              = cell\<lparr>c_value := m_value msg, c_placed_by := int player_id\<rparr>
          \<and> cells_remaining (game sv') = cells_remaining (game sv) - 1
          \<and> p_score (players (game sv') ! player_id) = p_score mover + 10)
       \<and> (c_is_fixed cell = 0 \<and> c_value cell = EMPTY_CELL \<and> m_value msg \<noteq> c_solution cell \<longrightarrow>
            grid (game sv') = grid (game sv)
          \<and> cells_remaining (game sv') = cells_remaining (game sv)
          \<and> p_score (players (game sv') ! player_id) = p_score mover - 5)"
proof -
  have len: "length (players (game sv)) = 5" "length (grid (game sv)) = 9"
    "length (grid (game sv) ! nat (m_row msg)) = 9"
    using wf row by (auto simp: wf_game_def list_all_length)
  have sv': "sv' = fst (handle_place player_id msg sv)"
    and r: "response = snd (handle_place player_id msg sv)"
    using res by simp_all
  note pre = prog turn row col val
  have A: "m_type response = MSG_ERROR \<and> game sv' = game sv"
    if "c_is_fixed cell \<noteq> 0 \<or> c_value cell \<noteq> EMPTY_CELL"
    using place_critical_rejected[OF pre that[unfolded cell]]
    by (simp add: sv' r handle_place_fields handle_place_stops)
  have B: "grid (game sv') ! nat (m_row msg) ! nat (m_col msg)
              = cell\<lparr>c_value := m_value msg, c_placed_by := int player_id\<rparr>
          \<and> cells_remaining (game sv') = cells_remaining (game sv) - 1
          \<and> p_score (players (game sv') ! player_id) = p_score mover + 10"
    if "c_is_fixed cell = 0" "c_value cell = EMPTY_CELL" "m_value msg = c_solution cell"
    using that(3) len pid row col
    by (simp add: sv' handle_place_fields
        place_critical_accepted_fields[OF pre that(1,2)[unfolded cell]] game_place_resolve cell mover)
  have C: "grid (game sv') = grid (game sv)
          \<and> cells_remaining (game sv') = cells_remaining (game sv)
          \<and> p_score (players (game sv') ! player_id) = p_score mover - 5"
    if "c_is_fixed cell = 0" "c_value cell = EMPTY_CELL" "m_value msg \<noteq> c_solution cell"
    using that(3) len pid row col
    by (simp add: sv' handle_place_fields
        place_critical_accepted_fields[OF pre that(1,2)[unfolded cell]] game_place_resolve cell mover)
  from A B C show ?thesis by blast
qed

lemma example_server_game [simp]: "game example_server = example_game"
  by (simp add: example_server_def)

lemma example_game_fields [simp]:
  "game_state example_game = GAME_IN_PROGRESS" "current_turn example_game = 0"
  "grid example_game = example_puzzle" "players example_game = example_players"
  "cells_remaining example_game = 40" "num_players example_game = 3"
  "turn_signal example_game = 1" "winner_id example_game = - 1"
  by (simp_all add: example_game_def)

lemma example_puzzle_nth: "r < 9 \<Longrightarrow> c < 9 \<Longrightarrow> example_puzzle ! r ! c = example_cell r c"
  by (simp add: example_puzzle_def)

lemma wf_example_game: "wf_game example_game"
  by (simp add: wf_game_def example_puzzle_def example_players_def list_all_iff)

theorem C1_place_resolution_witness:
  "cells_remaining (game (fst (handle_place 0 (place_request 0 0 1) example_server))) = 39
   \<and> p_score (players (game (fst (handle_place 0 (place_request 0 0 1) example_server))) ! 0) = 10
   \<and> c_value (grid (game (fst (handle_place 0 (place_request 0 0 1) example_server))) ! 0 ! 0) = 1
   \<and> p_score (players (game (fst (handle_place 0 (place_request 0 0 2) example_server))) ! 0) = - 5
   \<and> grid (game (fst (handle_place 0 (place_request 0 0 2) example_server))) = example_puzzle
   \<and> m_type (snd (handle_place 0 (place_request 8 8 1) example_server)) = MSG_ERROR
   \<and> game (fst (handle_place 0 (place_request 8 8 1) example_server)) = example_game"
proof -
  have f: "m_row (place_request a b c) = a" "m_col (place_request a b c) = b"
    "m_value (place_request a b c) = c" for a b c
    by (simp_all add: place_request_def zero_message_def)
  have c00: "example_puzzle ! 0 ! 0 = \<lparr>c_value = 0, c_solution = 1, c_is_fixed = 0, c_placed_by = - 1\<rparr>"
    by (simp add: example_puzzle_nth example_cell_def example_solution_def)
  have c88: "example_puzzle ! 8 ! 8 = \<lparr>c_value = 8, c_solution = 8, c_is_fixed = 1, c_placed_by = - 1\<rparr>"
    by (simp add: example_puzzle_nth example_cell_def example_solution_def)
  have p0: "p_score (example_players ! 0) = 0"
    by (simp add: example_players_def example_player_def)
  have C: "handle_place 0 msg example_server
           = (fst (handle_place 0 msg example_server), snd (handle_place 0 msg example_server))" for msg
    by simp
  note T = C1_place_resolution[where sv = example_server and player_id = 0
      and mover = "example_players ! 0", OF _ _ _ _ _ _ _ _ _ _ C]
  from T[where msg = "place_request 0 0 1" and cell = "example_puzzle ! 0 ! 0"]
    T[where msg = "place_request 0 0 2" and cell = "example_puzzle ! 0 ! 0"]
    T[where msg = "place_request 8 8 1" and cell = "example_puzzle ! 8 ! 8"]
  show ?thesis
    by (simp add: f c00 c88 p0 wf_example_game)
qed

subsection \<open>The dice server\<close>

lemma race_enqueue_log_simps [simp]:
  "r_game (race_enqueue_log m sv) = r_game sv"
  "r_scores (race_enqueue_log m sv) = r_scores sv"
  "r_scores_file (race_enqueue_log m sv) = r_scores_file sv"
  "r_scores_file_writable (race_enqueue_log m sv) = r_scores_file_writable sv"
  by (simp_all add: race_enqueue_log_def Let_def)

lemma race_save_scores_simps [simp]:
  "r_game (race_save_scores sv) = r_game sv"
  "r_scores (race_save_scores sv) = r_scores sv"
  by (simp_all add: race_save_scores_def)

lemma update_score_game [simp]: "r_game (update_score n sv) = r_game sv"
  by (simp add: update_score_def Let_def)

lemma race_advance_turn_simps [simp]:
  "r_players (r_game (race_advance_turn sv)) = r_players (r_game sv)"
  "r_game_state (r_game (race_advance_turn sv)) = r_game_state (r_game sv)"
  "r_winner_id (r_game (race_advance_turn sv)) = r_winner_id (r_game sv)"
  "r_num_players (r_game (race_advance_turn sv)) = r_num_players (r_game sv)"
  by (simp_all add: race_advance_turn_def Let_def)

lemma die_value: "int n smod 6 + 1 = int (n mod 6) + 1"
  by (simp add: smod_int_alt_def sgn_if zmod_int)

lemma roll_critical_not_in_progress:
  "r_game_state (r_game sv) \<noteq> GAME_IN_PROGRESS \<Longrightarrow>
     roll_critical player_id rand1 rand2 sv =
       (sv, race_zero_message\<lparr>rm_type := RMSG_ERROR, rm_text := RTextGameNotInProgress\<rparr>, False)"
  by (simp add: roll_critical_def Let_def)

lemma roll_critical_not_your_turn:
  "r_game_state (r_game sv) = GAME_IN_PROGRESS \<Longrightarrow> r_current_turn (r_game sv) \<noteq> int player_id \<Longrightarrow>
     roll_critical player_id rand1 rand2 sv =
       (sv, race_zero_message\<lparr>rm_type := RMSG_WAIT,
              rm_text := RTextNotYourTurn (r_current_turn (r_game sv) + 1)
                           (rp_name (r_players (r_game sv) ! nat (r_current_turn (r_game sv))))\<rparr>, False)"
  by (simp add: roll_critical_def Let_def)

lemma game_roll_critical:
  assumes "r_game_state (r_game sv) = GAME_IN_PROGRESS" "r_current_turn (r_game sv) = int player_id"
    and "a = int (rand1 mod 6) + 1" "b = int (rand2 mod 6) + 1"
    and "sc = (if a = 1 \<and> b = 1 then 0 else rp_score (r_players (r_game sv) ! player_id) + (a + b))"
  shows "r_game (fst (roll_critical player_id rand1 rand2 sv)) =
     (if sc \<ge> WINNING_SCORE
      then (r_game sv)\<lparr>r_players := (r_players (r_game sv))[player_id := (r_players (r_game sv) ! player_id)\<lparr>rp_score := sc\<rparr>],
                       r_winner_id := int player_id, r_game_state := GAME_FINISHED\<rparr>
      else (r_game sv)\<lparr>r_players := (r_players (r_game sv))[player_id := (r_players (r_game sv) ! player_id)\<lparr>rp_score := sc\<rparr>]\<rparr>)"
  using assms by (simp add: roll_critical_def Let_def split_def die_value)

lemma handle_roll_fields:
  "r_players (r_game (fst (handle_roll player_id rand1 rand2 sv)))
     = r_players (r_game (fst (roll_critical player_id rand1 rand2 sv)))"
  "r_game_state (r_game (fst (handle_roll player_id rand1 rand2 sv)))
     = r_game_state (r_game (fst (roll_critical player_id rand1 rand2 sv)))"
  "r_winner_id (r_game (fst (handle_roll player_id rand1 rand2 sv)))
     = r_winner_id (r_game (fst (roll_critical player_id rand1 rand2 sv)))"
  "snd (handle_roll player_id rand1 rand2 sv) = fst (snd (roll_critical player_id rand1 rand2 sv))"
  by (simp_all add: handle_roll_def split_def Let_def)

text \<open>
  Claim C2. A roll by the player whose turn it is, in a game in progress, with the dice
  \<open>a\<close> and \<open>b\<close> computed from the two random draws: two ones set the mover's score to 0
  whatever it was; any other pair adds \<open>a + b\<close> to it; and a resulting score of at least
  100 finishes the game with the mover as winner (below 100 the game stays in progress and
  the winner field is untouched).
\<close>

theorem C2_roll_resolution:
  assumes len: "length (r_players (r_game sv)) = 5" and pid: "int player_id < MAX_PLAYERS"
    and prog: "r_game_state (r_game sv) = GAME_IN_PROGRESS"
    and turn: "r_current_turn (r_game sv) = int player_id"
    and res: "handle_roll player_id rand1 rand2 sv = (sv', response)"
    and a: "a = int (rand1 mod 6) + 1" and b: "b = int (rand2 mod 6) + 1"
    and old: "old_score = rp_score (r_players (r_game sv) ! player_id)"
    and new: "new_score = rp_score (r_players (r_game sv') ! player_id)"
  shows "1 \<le> a \<and> a \<le> 6 \<and> 1 \<le> b \<and> b \<le> 6
       \<and> (a = 1 \<and> b = 1 \<longrightarrow> new_score = 0)
       \<and> (\<not> (a = 1 \<and> b = 1) \<longrightarrow> new_score = old_score + a + b)
       \<and> (new_score \<ge> WINNING_SCORE \<longrightarrow>
            r_game_state (r_game sv') = GAME_FINISHED \<and> r_winner_id (r_game sv') = int player_id)
       \<and> (new_score < WINNING_SCORE \<longrightarrow>
            r_game_state (r_game sv') = GAME_IN_PROGRESS \<and> r_winner_id (r_game sv') = r_winner_id (r_game sv))"
proof -
  have sv': "sv' = fst (handle_roll player_id rand1 rand2 sv)"
    using res by simp
  have range: "1 \<le> a \<and> a \<le> 6 \<and> 1 \<le> b \<and> b \<le> 6"
  proof -
    have "rand1 mod 6 < 6" "rand2 mod 6 < 6" by simp_all
    then show ?thesis unfolding a b by linarith
  qed
  define sc where "sc = (if a = 1 \<and> b = 1 then 0 else old_score + (a + b))"
  note g = game_roll_critical[OF prog turn a b sc_def[unfolded old]]
  have new_sc: "new_score = sc"
    using len pid by (simp add: new sv' handle_roll_fields g)
  have fin: "r_game_state (r_game sv') = GAME_FINISHED \<and> r_winner_id (r_game sv') = int player_id"
    if "sc \<ge> WINNING_SCORE"
    using that by (simp add: sv' handle_roll_fields g)
  have cont: "r_game_state (r_game sv') = GAME_IN_PROGRESS \<and> r_winner_id (r_game sv') = r_winner_id (r_game sv)"
    if "sc < WINNING_SCORE"
    using that prog by (simp add: sv' handle_roll_fields g)
  from range fin cont show ?thesis unfolding new_sc by (simp add: sc_def)
qed

lemma race_example_fields [simp]:
  "r_game_state (r_game race_example_server) = GAME_IN_PROGRESS"
  "r_current_turn (r_game race_example_server) = 0"
  "r_winner_id (r_game race_example_server) = - 1"
  "length (r_players (r_game race_example_server)) = 5"
  "rp_score (r_players (r_game race_example_server) ! 0) = 95"
  by (simp_all add: race_example_server_def race_example_player_def)

theorem C2_roll_resolution_witness:
  "rp_score (r_players (r_game (fst (handle_roll 0 5 3 race_example_server))) ! 0) = 105
   \<and> r_game_state (r_game (fst (handle_roll 0 5 3 race_example_server))) = GAME_FINISHED
   \<and> r_winner_id (r_game (fst (handle_roll 0 5 3 race_example_server))) = 0
   \<and> rp_score (r_players (r_game (fst (handle_roll 0 0 6 race_example_server))) ! 0) = 0
   \<and> r_game_state (r_game (fst (handle_roll 0 0 6 race_example_server))) = GAME_IN_PROGRESS"
proof -
  have C: "handle_roll 0 r1 r2 race_example_server
           = (fst (handle_roll 0 r1 r2 race_example_server), snd (handle_roll 0 r1 r2 race_example_server))"
    for r1 r2
    by simp
  note T = C2_roll_resolution[where sv = race_example_server and player_id = 0,
      OF _ _ _ _ C refl refl refl refl]
  from T[of 5 3] T[of 0 6] show ?thesis by simp
qed

text \<open>
  Claim C6. A move (a placement on the Sudoku server, a roll on the dice server) sent
  while the game is not in progress is answered with an Error, ``Game not in progress'';
  one sent in a game in progress by a slot that does not hold the turn is answered with a
  Wait, ``Not your turn''. In both cases, on both servers, no field of the shared game
  state changes (nor do the log queue and the score table).
\<close>

theorem C6_move_out_of_turn:
  "(game_state (game sv) \<noteq> GAME_IN_PROGRESS \<longrightarrow>
      m_type (snd (handle_place player_id msg sv)) = MSG_ERROR
    \<and> m_text (snd (handle_place player_id msg sv)) = TextGameNotInProgress
    \<and> game (fst (handle_place player_id msg sv)) = game sv
    \<and> log_queue (fst (handle_place player_id msg sv)) = log_queue sv
    \<and> scores (fst (handle_place player_id msg sv)) = scores sv)
 \<and> (game_state (game sv) = GAME_IN_PROGRESS \<and> current_turn (game sv) \<noteq> int player_id \<longrightarrow>
      m_type (snd (handle_place player_id msg sv)) = MSG_WAIT
    \<and> m_text (snd (handle_place player_id msg sv))
        = TextNotYourTurn (current_turn (game sv) + 1)
            (p_name (players (game sv) ! nat (current_turn (game sv))))
    \<and> game (fst (handle_place player_id msg sv)) = game sv
    \<and> log_queue (fst (handle_place player_id msg sv)) = log_queue sv
    \<and> scores (fst (handle_place player_id msg sv)) = scores sv)
 \<and> (r_game_state (r_game rsv) \<noteq> GAME_IN_PROGRESS \<longrightarrow>
      rm_type (snd (handle_roll player_id rand1 rand2 rsv)) = RMSG_ERROR
    \<and> rm_text (snd (handle_roll player_id rand1 rand2 rsv)) = RTextGameNotInProgress
    \<and> fst (handle_roll player_id rand1 rand2 rsv) = rsv)
 \<and> (r_game_state (r_game rsv) = GAME_IN_PROGRESS \<and> r_current_turn (r_game rsv) \<noteq> int player_id \<longrightarrow>
      rm_type (snd (handle_roll player_id rand1 rand2 rsv)) = RMSG_WAIT
    \<and> rm_text (snd (handle_roll player_id rand1 rand2 rsv))
        = RTextNotYourTurn (r_current_turn (r_game rsv) + 1)
            (rp_name (r_players (r_game rsv) ! nat (r_current_turn (r_game rsv))))
    \<and> fst (handle_roll player_id rand1 rand2 rsv) = rsv)"
  by (simp add: handle_place_def handle_roll_def place_critical_not_in_progress
      place_critical_not_your_turn roll_critical_not_in_progress roll_critical_not_your_turn
      zero_message_def race_zero_message_def)

theorem C6_move_out_of_turn_witness:
  "m_type (snd (handle_place 1 (place_request 0 0 1) example_server)) = MSG_WAIT
   \<and> game (fst (handle_place 1 (place_request 0 0 1) example_server)) = example_game
   \<and> m_type (snd (handle_place 0 (place_request 0 0 1) (setup_shared_memory True))) = MSG_ERROR
   \<and> game (fst (handle_place 0 (place_request 0 0 1) (setup_shared_memory True))) = initial_game
   \<and> rm_type (snd (handle_roll 1 5 3 race_example_server)) = RMSG_WAIT
   \<and> fst (handle_roll 1 5 3 race_example_server) = race_example_server
   \<and> rm_type (snd (handle_roll 0 5 3 (race_setup_shared_memory True))) = RMSG_ERROR
   \<and> fst (handle_roll 0 5 3 (race_setup_shared_memory True)) = race_setup_shared_memory True"
proof -
  have i: "game (setup_shared_memory True) = initial_game"
    "game_state initial_game = GAME_WAITING_FOR_PLAYERS"
    "r_game_state (r_game (race_setup_shared_memory True)) = GAME_WAITING_FOR_PLAYERS"
    by (simp_all add: setup_shared_memory_def initial_game_def race_setup_shared_memory_def)
  from C6_move_out_of_turn[of example_server 1 "place_request 0 0 1" race_example_server 5 3]
    C6_move_out_of_turn[of "setup_shared_memory True" 0 "place_request 0 0 1"
      "race_setup_shared_memory True" 5 3]
  show ?thesis by (simp add: i)
qed

subsection \<open>Admissible and inadmissible placements\<close>

lemma place_critical_inadmissible:
  assumes "\<not> place_admissible player_id msg (game sv)"
  shows "fst (place_critical player_id msg sv) = spin_unlock GameLock (spin_lock GameLock sv)"
    and "m_type (fst (snd (place_critical player_id msg sv))) = MSG_ERROR
         \<or> m_type (fst (snd (place_critical player_id msg sv))) = MSG_WAIT"
    and "\<not> snd (snd (place_critical player_id msg sv))"
  using assms
  by (auto simp add: place_critical_def place_admissible_def Let_def zero_message_def)

lemma place_critical_admissible:
  assumes "place_admissible player_id msg (game sv)"
  shows "place_critical player_id msg sv =
     (let (sv1, response) = place_resolve player_id msg zero_message (spin_lock GameLock sv)
      in if cells_remaining (game sv1) \<le> 0
         then (let (sv2, response) = place_game_over player_id response sv1 in (sv2, response, False))
         else (spin_unlock GameLock sv1, response, True))"
  using assms unfolding place_admissible_def
  by (intro place_critical_accepted) simp_all

lemma place_critical_type:
  "m_type (fst (snd (place_critical player_id msg sv))) =
     (if place_admissible player_id msg (game sv)
      then (if cells_remaining (game (fst (place_resolve player_id msg zero_message (spin_lock GameLock sv)))) \<le> 0
            then MSG_GAME_OVER else MSG_PLACE_RESULT)
      else m_type (fst (snd (place_critical player_id msg sv))))"
  by (simp add: place_critical_admissible split_def Let_def)

lemma place_critical_continues:
  "snd (snd (place_critical player_id msg sv)) \<longleftrightarrow>
     place_admissible player_id msg (game sv) \<and>
     0 < cells_remaining (game (fst (place_resolve player_id msg zero_message (spin_lock GameLock sv))))"
  using place_critical_inadmissible(3)[of player_id msg sv]
  by (cases "place_admissible player_id msg (game sv)")
     (auto simp add: place_critical_admissible split_def Let_def)

lemma p_state_update_nth:
  assumes "p_state q = p_state (ps ! i)"
  shows "p_state (ps[i := q] ! j) = p_state (ps ! j)"
  using assms by (cases "i < length ps") (auto simp: nth_list_update list_update_beyond not_less)

lemma place_resolve_states:
  "p_state (players (game (fst (place_resolve player_id msg response sv))) ! j)
     = p_state (players (game sv) ! j)"
  by (simp add: game_place_resolve p_state_update_nth)

lemma place_resolve_frame [simp]:
  "current_turn (game (fst (place_resolve player_id msg response sv))) = current_turn (game sv)"
  "turn_signal (game (fst (place_resolve player_id msg response sv))) = turn_signal (game sv)"
  "game_state (game (fst (place_resolve player_id msg response sv))) = game_state (game sv)"
  "num_players (game (fst (place_resolve player_id msg response sv))) = num_players (game sv)"
  "winner_id (game (fst (place_resolve player_id msg response sv))) = winner_id (game sv)"
  "length (players (game (fst (place_resolve player_id msg response sv)))) = length (players (game sv))"
  by (simp_all add: game_place_resolve)

lemma is_active_cong:
  assumes "\<And>j. p_state (players g' ! j) = p_state (players g ! j)"
  shows "is_active g' = is_active g" "active_slots g' = active_slots g"
proof -
  show a: "is_active g' = is_active g" by (rule ext) (simp add: is_active_def assms)
  show "active_slots g' = active_slots g" by (simp add: active_slots_def a)
qed

lemma gnap_cong:
  assumes "players g' = players g"
  shows "get_next_active_player g' c = get_next_active_player g c"
  by (simp add: get_next_active_player_def assms)


subsection \<open>A single active player\<close>

lemma gnap_in_active_slots:
  assumes "- 1 \<le> current" "active_slots g \<noteq> []"
  shows "get_next_active_player g current \<in> set (active_slots g)"
proof -
  have "get_next_active_player g current \<noteq> - 1"
    using gnap_none_iff[OF assms(1), of g] assms(2) by simp
  then show ?thesis
    using gnap_result[of g current] by (auto simp: active_slots_def)
qed

lemma game_place_critical_continues:
  assumes "snd (snd (place_critical player_id msg sv))"
  shows "game (fst (place_critical player_id msg sv))
         = game (fst (place_resolve player_id msg zero_message (spin_lock GameLock sv)))"
  using assms unfolding place_critical_continues
  by (simp add: place_critical_admissible split_def Let_def)

text \<open>
  Claim C9. When exactly one slot \<open>i\<close> is Active, \<open>get_next_active_player\<close> returns \<open>i\<close>
  for every current index (from \<open>-1\<close> on), also for \<open>i\<close> itself; so \<open>advance_turn\<close>
  keeps the turn with \<open>i\<close> and still increments \<open>turn_signal\<close>, and so does a
  placement of \<open>i\<close> after which the game continues.
\<close>

theorem C9_single_active_player:
  assumes one: "active_slots (game sv) = [int i]"
    and cur: "- 1 \<le> current"
  shows "get_next_active_player (game sv) current = int i
       \<and> (current_turn (game sv) = int i \<longrightarrow>
            current_turn (game (advance_turn sv)) = int i
          \<and> turn_signal (game (advance_turn sv)) = turn_signal (game sv) + 1)
       \<and> (m_type (snd (handle_place i msg sv)) = MSG_PLACE_RESULT \<longrightarrow>
            current_turn (game (fst (handle_place i msg sv))) = int i
          \<and> turn_signal (game (fst (handle_place i msg sv))) = turn_signal (game sv) + 1)"
proof -
  have next_i: "get_next_active_player g c = int i" if "active_slots g = [int i]" "- 1 \<le> c" for g c
    using gnap_in_active_slots[OF that(2), of g] that(1) by simp
  have adv: "current_turn (game (advance_turn s)) = int i
          \<and> turn_signal (game (advance_turn s)) = turn_signal (game s) + 1"
    if "active_slots (game s) = [int i]" "current_turn (game s) = int i" for s
    using next_i[OF that(1), of "int i"] that(2) by (simp add: game_advance_turn)
  have place: "current_turn (game (fst (handle_place i msg sv))) = int i
          \<and> turn_signal (game (fst (handle_place i msg sv))) = turn_signal (game sv) + 1"
    if t: "m_type (snd (handle_place i msg sv)) = MSG_PLACE_RESULT"
  proof -
    let ?sv1 = "fst (place_resolve i msg zero_message (spin_lock GameLock sv))"
    have ty: "m_type (fst (snd (place_critical i msg sv))) = MSG_PLACE_RESULT"
      using t by (simp add: handle_place_fields)
    have adm: "place_admissible i msg (game sv)"
      using ty place_critical_inadmissible(2)[of i msg sv] by auto
    have pos: "0 < cells_remaining (game ?sv1)"
      using ty adm by (subst (asm) place_critical_type) (simp split: if_splits)
    have cont: "snd (snd (place_critical i msg sv))"
      using adm pos by (simp add: place_critical_continues)
    have g1: "game (fst (place_critical i msg sv)) = game ?sv1"
      using cont by (rule game_place_critical_continues)
    have hp: "game (fst (handle_place i msg sv)) = game (advance_turn (fst (place_critical i msg sv)))"
      using cont by (simp add: handle_place_def split_def Let_def)
    have act: "active_slots (game ?sv1) = [int i]"
      using one is_active_cong(2)[of "game ?sv1" "game sv"] by (simp add: place_resolve_states)
    have turn: "current_turn (game ?sv1) = int i"
      using adm by (simp add: place_admissible_def)
    show ?thesis
      using adv[of "fst (place_critical i msg sv)"] act turn by (simp add: hp g1)
  qed
  from next_i[OF one cur] adv[OF one] place show ?thesis by blast
qed

lemma lone_game_fields [simp]:
  "game lone_server = lone_game" "active_slots lone_game = [0]"
  "current_turn lone_game = 0" "turn_signal lone_game = 1"
  by (simp_all add: lone_server_def lone_game_def active_slots_eq is_active_simps
      example_player_def initial_player_def)

theorem C9_single_active_player_witness:
  "get_next_active_player lone_game 0 = 0
   \<and> current_turn (game (advance_turn lone_server)) = 0
   \<and> turn_signal (game (advance_turn lone_server)) = 2"
  using C9_single_active_player[where i = 0 and current = 0 and sv = lone_server]
  by simp

subsection \<open>The scheduler\<close>

lemma game_scheduler_check_turn:
  "game (scheduler_check_turn sv) =
     (if 0 \<le> current_turn (game sv) \<and> current_turn (game sv) < MAX_PLAYERS
         \<and> p_state (players (game sv) ! nat (current_turn (game sv))) \<noteq> PLAYER_ACTIVE
      then (if get_next_active_player (game sv) (current_turn (game sv)) \<ge> 0
            then (game sv)\<lparr>current_turn := get_next_active_player (game sv) (current_turn (game sv)),
                           turn_signal := turn_signal (game sv) + 1\<rparr>
            else (game sv)\<lparr>game_state := GAME_FINISHED\<rparr>)
      else game sv)"
  by (simp add: scheduler_check_turn_def Let_def)

lemma scheduler_check_turn_simps [simp]:
  "players (game (scheduler_check_turn sv)) = players (game sv)"
  "cells_remaining (game (scheduler_check_turn sv)) = cells_remaining (game sv)"
  "grid (game (scheduler_check_turn sv)) = grid (game sv)"
  "num_players (game (scheduler_check_turn sv)) = num_players (game sv)"
  "winner_id (game (scheduler_check_turn sv)) = winner_id (game sv)"
  "scores (scheduler_check_turn sv) = scores sv"
  "scores_file (scheduler_check_turn sv) = scores_file sv"
  by (simp_all add: scheduler_check_turn_def Let_def)

lemma game_scheduler_update_stats [simp]: "game (scheduler_update_stats w sv) = game sv"
proof -
  have "game (fold (\<lambda>i sv. let p = players (game sv) ! i in
                   if p_state p = PLAYER_ACTIVE
                   then update_player_stats (p_name p) (int i = w)
                          (p_correct_placements p) (p_wrong_placements p) sv
                   else sv) xs sv) = game sv" for xs
    by (induction xs arbitrary: sv) (simp_all add: Let_def)
  then show ?thesis by (simp add: scheduler_update_stats_def)
qed

lemma game_scheduler_check_completion:
  "game (scheduler_check_completion sv) =
     (if cells_remaining (game sv) \<le> 0
      then (game sv)\<lparr>game_state := GAME_FINISHED,
                     winner_id := snd (scheduler_find_winner (players (game sv)))\<rparr>
      else game sv)"
  by (simp add: scheduler_check_completion_def Let_def split_def)

lemma scheduler_check_completion_no_winner:
  assumes "snd (scheduler_find_winner (players (game sv))) < 0"
  shows "scores (scheduler_check_completion sv) = scores sv"
    and "scores_file (scheduler_check_completion sv) = scores_file sv"
  using assms by (simp_all add: scheduler_check_completion_def Let_def split_def)

lemma game_scheduler_iteration:
  "game (scheduler_iteration sv) =
     (if game_state (game sv) = GAME_IN_PROGRESS
      then game (scheduler_check_completion (scheduler_check_turn (spin_lock GameLock sv)))
      else game sv)"
  by (simp add: scheduler_iteration_def Let_def)

lemma scheduler_iteration_scores:
  "scores (scheduler_iteration sv) =
     (if game_state (game sv) = GAME_IN_PROGRESS
      then scores (scheduler_check_completion (scheduler_check_turn (spin_lock GameLock sv)))
      else scores sv)"
  "scores_file (scheduler_iteration sv) =
     (if game_state (game sv) = GAME_IN_PROGRESS
      then scores_file (scheduler_check_completion (scheduler_check_turn (spin_lock GameLock sv)))
      else scores_file sv)"
  by (simp_all add: scheduler_iteration_def Let_def)

subsection \<open>The winner loops\<close>

lemma all_less_5: "(\<forall>i<5::nat. P i) \<longleftrightarrow> P 0 \<and> P 1 \<and> P 2 \<and> P 3 \<and> P 4"
proof
  assume a: "\<forall>i<5. P i"
  have "(0::nat) < 5" "(1::nat) < 5" "(2::nat) < 5" "(3::nat) < 5" "(4::nat) < 5" by simp_all
  with a show "P 0 \<and> P 1 \<and> P 2 \<and> P 3 \<and> P 4" by blast
next
  assume a: "P 0 \<and> P 1 \<and> P 2 \<and> P 3 \<and> P 4"
  show "\<forall>i<5. P i"
  proof (intro allI impI)
    fix i :: nat assume "i < 5"
    then have "i = 0 \<or> i = 1 \<or> i = 2 \<or> i = 3 \<or> i = 4" by arith
    with a show "P i" by auto
  qed
qed

lemma find_winner_same: "place_find_winner ps = scheduler_find_winner ps"
  by (simp add: place_find_winner_def scheduler_find_winner_def)

lemma fold_fixed:
  assumes "\<And>x. x \<in> set xs \<Longrightarrow> f x s = s"
  shows "fold f xs s = s"
  using assms by (induction xs) simp_all

lemma find_winner_none:
  assumes "\<forall>i<5. p_state (ps ! i) = PLAYER_ACTIVE \<longrightarrow> p_score (ps ! i) \<le> - 1000"
  shows "scheduler_find_winner ps = (- 1000, - 1)"
  unfolding scheduler_find_winner_def
proof (rule fold_fixed)
  fix x :: nat
  assume "x \<in> set [0..<nat MAX_PLAYERS]"
  then have "x < 5" by simp
  with assms have "p_state (ps ! x) = PLAYER_ACTIVE \<longrightarrow> p_score (ps ! x) \<le> - 1000" by blast
  then show "(case (- 1000, - 1) of (max_score, winner) \<Rightarrow>
               if p_state (ps ! x) = PLAYER_ACTIVE \<and> max_score < p_score (ps ! x)
               then (p_score (ps ! x), int x) else (max_score, winner)) = (- 1000, - 1)"
    by auto
qed

lemma game_place_critical_game_over:
  assumes "m_type (fst (snd (place_critical player_id msg sv))) = MSG_GAME_OVER"
  shows "game (fst (place_critical player_id msg sv)) =
     (game (fst (place_resolve player_id msg zero_message (spin_lock GameLock sv))))
       \<lparr>winner_id := snd (place_find_winner (players (game (fst (place_resolve player_id msg zero_message (spin_lock GameLock sv)))))),
        game_state := GAME_FINISHED\<rparr>"
proof -
  have adm: "place_admissible player_id msg (game sv)"
    using assms place_critical_inadmissible(2)[of player_id msg sv] by auto
  have "cells_remaining (game (fst (place_resolve player_id msg zero_message (spin_lock GameLock sv)))) \<le> 0"
    using assms adm by (subst (asm) place_critical_type) (simp split: if_splits)
  then show ?thesis
    by (simp add: place_critical_admissible[OF adm] split_def Let_def game_place_game_over)
qed

text \<open>
  Claim C10. The winner loops start from the best score \<open>-1000\<close> and keep only strictly
  greater scores. When every Active player's score is at most \<open>-1000\<close>, both loops end
  with no winner; the completion check of the scheduler then sets \<open>winner_id\<close> to \<open>-1\<close>,
  finishes the game and leaves the score table and the score file as they were; and a
  placement that completes the puzzle into such a state \<open>sv\<close> has set \<open>winner_id\<close> to
  \<open>-1\<close> too.
\<close>

theorem C10_no_winner_at_minus_1000:
  assumes low: "\<forall>i<5. p_state (players (game sv) ! i) = PLAYER_ACTIVE
                        \<longrightarrow> p_score (players (game sv) ! i) \<le> - 1000"
  shows "scheduler_find_winner (players (game sv)) = (- 1000, - 1)
       \<and> place_find_winner (players (game sv)) = (- 1000, - 1)
       \<and> (game_state (game sv) = GAME_IN_PROGRESS \<and> cells_remaining (game sv) \<le> 0 \<longrightarrow>
            winner_id (game (scheduler_iteration sv)) = - 1
          \<and> game_state (game (scheduler_iteration sv)) = GAME_FINISHED
          \<and> scores (scheduler_iteration sv) = scores sv
          \<and> scores_file (scheduler_iteration sv) = scores_file sv)
       \<and> (m_type (snd (handle_place player_id msg sv0)) = MSG_GAME_OVER
            \<and> sv = fst (handle_place player_id msg sv0) \<longrightarrow>
            winner_id (game sv) = - 1 \<and> game_state (game sv) = GAME_FINISHED)"
proof -
  have w: "scheduler_find_winner (players (game sv)) = (- 1000, - 1)"
    using low by (rule find_winner_none)
  have sched: "winner_id (game (scheduler_iteration sv)) = - 1
          \<and> game_state (game (scheduler_iteration sv)) = GAME_FINISHED
          \<and> scores (scheduler_iteration sv) = scores sv
          \<and> scores_file (scheduler_iteration sv) = scores_file sv"
    if "game_state (game sv) = GAME_IN_PROGRESS" "cells_remaining (game sv) \<le> 0"
    using that w
    by (simp add: game_scheduler_iteration scheduler_iteration_scores
        game_scheduler_check_completion scheduler_check_completion_no_winner)
  have hand: "winner_id (game sv) = - 1 \<and> game_state (game sv) = GAME_FINISHED"
    if t: "m_type (snd (handle_place player_id msg sv0)) = MSG_GAME_OVER"
      and e: "sv = fst (handle_place player_id msg sv0)"
  proof -
    let ?sv1 = "fst (place_resolve player_id msg zero_message (spin_lock GameLock sv0))"
    have ty: "m_type (fst (snd (place_critical player_id msg sv0))) = MSG_GAME_OVER"
      using t by (simp add: handle_place_fields)
    have stop: "\<not> snd (snd (place_critical player_id msg sv0))"
      using ty by (subst place_critical_continues, subst (asm) place_critical_type)
        (simp split: if_splits)
    have g: "game sv = (game ?sv1)\<lparr>winner_id := snd (place_find_winner (players (game ?sv1))),
                                    game_state := GAME_FINISHED\<rparr>"
      using game_place_critical_game_over[OF ty] by (simp add: e handle_place_stops[OF stop])
    have "players (game ?sv1) = players (game sv)"
      by (subst g) simp
    then show ?thesis
      using w by (subst g, subst g) (simp add: find_winner_same)
  qed
  from w sched hand show ?thesis by (simp add: find_winner_same)
qed

subsection \<open>Evaluating the end of a game\<close>

lemma place_critical_admissible_fields:
  assumes "place_admissible player_id msg (game sv)"
  shows "cells_remaining (game (fst (place_critical player_id msg sv)))
           = cells_remaining (game (fst (place_resolve player_id msg zero_message (spin_lock GameLock sv))))"
    and "players (game (fst (place_critical player_id msg sv)))
           = players (game (fst (place_resolve player_id msg zero_message (spin_lock GameLock sv))))"
    and "scores (fst (place_critical player_id msg sv)) = scores sv"
    and "scores_file (fst (place_critical player_id msg sv)) = scores_file sv"
  by (simp_all add: place_critical_admissible[OF assms] split_def Let_def game_place_game_over)

lemma place_resolve_fields:
  "cells_remaining (game (fst (place_resolve player_id msg response sv))) =
     (if m_value msg = c_solution (grid (game sv) ! nat (m_row msg) ! nat (m_col msg))
      then cells_remaining (game sv) - 1 else cells_remaining (game sv))"
  "players (game (fst (place_resolve player_id msg response sv))) =
     (if m_value msg = c_solution (grid (game sv) ! nat (m_row msg) ! nat (m_col msg))
      then (players (game sv))[player_id := (players (game sv) ! player_id)
             \<lparr>p_score := p_score (players (game sv) ! player_id) + POINTS_CORRECT,
              p_correct_placements := p_correct_placements (players (game sv) ! player_id) + 1\<rparr>]
      else (players (game sv))[player_id := (players (game sv) ! player_id)
             \<lparr>p_score := p_score (players (game sv) ! player_id) + POINTS_WRONG,
              p_wrong_placements := p_wrong_placements (players (game sv) ! player_id) + 1\<rparr>])"
  by (simp_all add: game_place_resolve)

lemma scores_update_player_stats:
  "scores (update_player_stats n w c x sv) = update_entries n w c x (scores sv)"
  by (simp add: update_player_stats_def Let_def)

lemma scores_file_update_player_stats:
  "scores_file (update_player_stats n w c x sv) =
     (if scores_file_writable sv then update_entries n w c x (scores sv) else scores_file sv)"
  by (simp add: update_player_stats_def save_scores_def Let_def)

lemma scores_scheduler_update_stats:
  "scores (scheduler_update_stats w sv) =
     fold (\<lambda>i es. let p = players (game sv) ! i in
                   if p_state p = PLAYER_ACTIVE
                   then update_entries (p_name p) (int i = w)
                          (p_correct_placements p) (p_wrong_placements p) es
                   else es)
          [0..<nat MAX_PLAYERS] (scores sv)"
proof -
  have "scores (fold (\<lambda>i sv. let p = players (game sv) ! i in
                   if p_state p = PLAYER_ACTIVE
                   then update_player_stats (p_name p) (int i = w)
                          (p_correct_placements p) (p_wrong_placements p) sv
                   else sv) xs s)
        = fold (\<lambda>i es. let p = players (game sv) ! i in
                   if p_state p = PLAYER_ACTIVE
                   then update_entries (p_name p) (int i = w)
                          (p_correct_placements p) (p_wrong_placements p) es
                   else es) xs (scores s)"
    if "game s = game sv" for xs s
    using that
  proof (induction xs arbitrary: s)
    case Nil
    show ?case by simp
  next
    case (Cons a xs)
    show ?case
      by (simp only: fold_simps, subst Cons.IH)
         (simp_all add: Cons.prems Let_def scores_update_player_stats)
  qed
  then show ?thesis by (simp add: scheduler_update_stats_def)
qed

lemma scores_file_scheduler_update_stats:
  assumes "scores_file_writable sv" "scores_file sv = scores sv"
  shows "scores_file (scheduler_update_stats w sv) = scores (scheduler_update_stats w sv)"
proof -
  have "scores_file (fold (\<lambda>i sv. let p = players (game sv) ! i in
                   if p_state p = PLAYER_ACTIVE
                   then update_player_stats (p_name p) (int i = w)
                          (p_correct_placements p) (p_wrong_placements p) sv
                   else sv) xs s)
        = scores (fold (\<lambda>i sv. let p = players (game sv) ! i in
                   if p_state p = PLAYER_ACTIVE
                   then update_player_stats (p_name p) (int i = w)
                          (p_correct_placements p) (p_wrong_placements p) sv
                   else sv) xs s)"
    if "scores_file_writable s" "scores_file s = scores s" for xs s
    using that
  proof (induction xs arbitrary: s)
    case Nil
    then show ?case by simp
  next
    case (Cons a xs)
    show ?case
      by (simp only: fold_simps, rule Cons.IH)
         (simp_all add: Cons.prems Let_def scores_update_player_stats scores_file_update_player_stats)
  qed
  then show ?thesis using assms by (simp add: scheduler_update_stats_def)
qed

lemma endgame_fields [simp]:
  "game_state (game endgame_server) = GAME_IN_PROGRESS"
  "current_turn (game endgame_server) = 0"
  "cells_remaining (game endgame_server) = 1"
  "players (game endgame_server) = endgame_players"
  "grid (game endgame_server) ! 0 ! 0
     = \<lparr>c_value = 0, c_solution = 1, c_is_fixed = 0, c_placed_by = - 1\<rparr>"
  "scores endgame_server = []" "scores_file endgame_server = []"
  "scores_file_writable endgame_server"
  by (simp_all add: endgame_server_def example_game_def setup_shared_memory_def endgame_cell_def
      example_solution_def)

lemma low_endgame_fields [simp]:
  "game_state (game low_endgame_server) = GAME_IN_PROGRESS"
  "current_turn (game low_endgame_server) = 0"
  "cells_remaining (game low_endgame_server) = 1"
  "players (game low_endgame_server) = low_endgame_players"
  "grid (game low_endgame_server) ! 0 ! 0
     = \<lparr>c_value = 0, c_solution = 1, c_is_fixed = 0, c_placed_by = - 1\<rparr>"
  "scores low_endgame_server = []" "scores_file low_endgame_server = []"
  by (simp_all add: low_endgame_server_def)

lemma place_request_fields [simp]:
  "m_row (place_request a b c) = a" "m_col (place_request a b c) = b"
  "m_value (place_request a b c) = c"
  by (simp_all add: place_request_def zero_message_def)

lemma endgame_admissible:
  "place_admissible 0 (place_request 0 0 1) (game endgame_server)"
  "place_admissible 0 (place_request 0 0 1) (game low_endgame_server)"
  by (simp_all add: place_admissible_def)

theorem C10_no_winner_at_minus_1000_witness:
  "winner_id (game (fst (handle_place 0 (place_request 0 0 1) low_endgame_server))) = - 1
   \<and> game_state (game (fst (handle_place 0 (place_request 0 0 1) low_endgame_server))) = GAME_FINISHED
   \<and> active_slots (game (fst (handle_place 0 (place_request 0 0 1) low_endgame_server))) = [0, 1, 2]"
proof -
  let ?sv = "fst (handle_place 0 (place_request 0 0 1) low_endgame_server)"
  have ps: "players (game ?sv) = [example_player 0 ''Ann'' (- 1000) 21 242 PLAYER_ACTIVE,
     example_player 1 ''Bob'' (- 1025) 19 243 PLAYER_ACTIVE,
     example_player 2 ''Cy'' (- 1310) 0 262 PLAYER_ACTIVE, initial_player 3, initial_player 4]"
    by (simp add: handle_place_fields place_critical_admissible_fields[OF endgame_admissible(2)]
        place_resolve_fields low_endgame_players_def example_player_def)
  have low: "\<forall>i<5. p_state (players (game ?sv) ! i) = PLAYER_ACTIVE
                        \<longrightarrow> p_score (players (game ?sv) ! i) \<le> - 1000"
    unfolding all_less_5 ps by (simp add: example_player_def initial_player_def)
  have ty: "m_type (snd (handle_place 0 (place_request 0 0 1) low_endgame_server)) = MSG_GAME_OVER"
    by (simp add: handle_place_fields)
      (subst place_critical_type, simp add: endgame_admissible place_resolve_fields)
  have act: "active_slots (game ?sv) = [0, 1, 2]"
    by (simp add: active_slots_eq is_active_simps ps example_player_def initial_player_def)
  from C10_no_winner_at_minus_1000[OF low, of 0 "place_request 0 0 1" low_endgame_server] ty act
  show ?thesis by simp
qed

text \<open>
  Claim C3, at the end of the game of Ann, Bob and Cy. Ann fills the last cell. The handler
  finishes the game and names Ann the winner, but the score table and the score file stay
  empty, and the scheduler, finding the game finished, leaves them empty afterwards. Run on
  the state that the handler had reached at its completion check (the cell filled, no cell
  remaining, the game still in progress), the completion check of the scheduler finishes
  the game with the same winner and records all three players in the table and the file.
\<close>

theorem C3_handler_finalization_skips_ledger:
  "game_state (game (fst (handle_place 0 (place_request 0 0 1) endgame_server))) = GAME_FINISHED
   \<and> winner_id (game (fst (handle_place 0 (place_request 0 0 1) endgame_server))) = 0
   \<and> scores (fst (handle_place 0 (place_request 0 0 1) endgame_server)) = []
   \<and> scores_file (fst (handle_place 0 (place_request 0 0 1) endgame_server)) = []
   \<and> scores (scheduler_iteration (fst (handle_place 0 (place_request 0 0 1) endgame_server))) = []
   \<and> game_state (game (scheduler_iteration
        (fst (place_resolve 0 (place_request 0 0 1) zero_message endgame_server)))) = GAME_FINISHED
   \<and> winner_id (game (scheduler_iteration
        (fst (place_resolve 0 (place_request 0 0 1) zero_message endgame_server)))) = 0
   \<and> scores (scheduler_iteration
        (fst (place_resolve 0 (place_request 0 0 1) zero_message endgame_server)))
      = [\<lparr>se_name = ''Ann'', se_wins = 1, se_total_correct = 21, se_total_wrong = 0\<rparr>,
         \<lparr>se_name = ''Bob'', se_wins = 0, se_total_correct = 19, se_total_wrong = 1\<rparr>,
         \<lparr>se_name = ''Cy'', se_wins = 0, se_total_correct = 0, se_total_wrong = 20\<rparr>]
   \<and> scores_file (scheduler_iteration
        (fst (place_resolve 0 (place_request 0 0 1) zero_message endgame_server)))
      = [\<lparr>se_name = ''Ann'', se_wins = 1, se_total_correct = 21, se_total_wrong = 0\<rparr>,
         \<lparr>se_name = ''Bob'', se_wins = 0, se_total_correct = 19, se_total_wrong = 1\<rparr>,
         \<lparr>se_name = ''Cy'', se_wins = 0, se_total_correct = 0, se_total_wrong = 20\<rparr>]"
proof -
  let ?h = "fst (handle_place 0 (place_request 0 0 1) endgame_server)"
  let ?r = "fst (place_resolve 0 (place_request 0 0 1) zero_message endgame_server)"
  let ?ps = "[example_player 0 ''Ann'' 210 21 0 PLAYER_ACTIVE,
     example_player 1 ''Bob'' 185 19 1 PLAYER_ACTIVE,
     example_player 2 ''Cy'' (- 100) 0 20 PLAYER_ACTIVE, initial_player 3, initial_player 4]"
  let ?l = "fst (place_resolve 0 (place_request 0 0 1) zero_message (spin_lock GameLock endgame_server))"
  have ty: "m_type (fst (snd (place_critical 0 (place_request 0 0 1) endgame_server))) = MSG_GAME_OVER"
    by (subst place_critical_type) (simp add: endgame_admissible place_resolve_fields)
  have stop: "\<not> snd (snd (place_critical 0 (place_request 0 0 1) endgame_server))"
    by (subst place_critical_continues) (simp add: place_resolve_fields)
  have hps: "players (game ?l) = ?ps"
    by (simp add: place_resolve_fields endgame_players_def example_player_def)
  have hw: "place_find_winner (players (game ?l)) = (210, 0)"
    unfolding hps
    by (simp add: place_find_winner_def upt_5 example_player_def initial_player_def)
  have hg: "game_state (game ?h) = GAME_FINISHED" "winner_id (game ?h) = 0"
    using game_place_critical_game_over[OF ty]
    by (simp_all add: handle_place_stops[OF stop] hw)
  have hs: "scores ?h = []" "scores_file ?h = []"
    by (simp_all add: handle_place_fields place_critical_admissible_fields[OF endgame_admissible(1)])
  have hsched: "scores (scheduler_iteration ?h) = []"
    using hg(1) hs(1) by (simp add: scheduler_iteration_scores)
  have rf: "game_state (game ?r) = GAME_IN_PROGRESS" "cells_remaining (game ?r) = 0"
    "current_turn (game ?r) = 0" "scores ?r = []" "scores_file_writable ?r" "scores_file ?r = []"
    by (simp_all add: place_resolve_fields place_resolve_def place_correct_def Let_def)
  have rps: "players (game ?r) = ?ps"
    by (simp add: place_resolve_fields endgame_players_def example_player_def)
  have rw: "scheduler_find_winner (players (game ?r)) = (210, 0)"
    unfolding rps
    by (simp add: scheduler_find_winner_def upt_5 example_player_def initial_player_def)
  have a0: "p_state (players (game ?r) ! 0) = PLAYER_ACTIVE"
    unfolding rps by (simp add: example_player_def)
  have sg: "game_state (game (scheduler_iteration ?r)) = GAME_FINISHED"
    "winner_id (game (scheduler_iteration ?r)) = 0"
    by (simp_all add: game_scheduler_iteration game_scheduler_check_completion rf rw)
  have ct: "scheduler_check_turn (spin_lock GameLock ?r) = spin_lock GameLock ?r"
    by (simp add: scheduler_check_turn_def Let_def rf a0)
  have ss: "scores (scheduler_iteration ?r)
      = [\<lparr>se_name = ''Ann'', se_wins = 1, se_total_correct = 21, se_total_wrong = 0\<rparr>,
         \<lparr>se_name = ''Bob'', se_wins = 0, se_total_correct = 19, se_total_wrong = 1\<rparr>,
         \<lparr>se_name = ''Cy'', se_wins = 0, se_total_correct = 0, se_total_wrong = 20\<rparr>]"
    by (simp add: scheduler_iteration_scores rf ct scheduler_check_completion_def Let_def rw
        scores_scheduler_update_stats)
       (simp add: rps upt_5 example_player_def initial_player_def update_entries_def)
  have sf: "scores_file (scheduler_iteration ?r) = scores (scheduler_iteration ?r)"
    by (simp add: scheduler_iteration_scores rf ct scheduler_check_completion_def Let_def rw
        scores_file_scheduler_update_stats)
  show ?thesis
    using hg hs hsched sg ss sf by simp
qed

subsection \<open>Runs\<close>

lemma lock_trace_game_update [simp]: "lock_trace (sv\<lparr>game := g\<rparr>) = lock_trace sv"
  by simp

lemma run_from_snoc [simp]: "run_from sv (es @ [e]) = exec e (run_from sv es)"
  by (simp add: run_from_def)

lemma run_snoc [simp]: "run w (es @ [e]) = exec e (run w es)"
  by (simp add: run_def)

lemma run_Nil [simp]: "run w [] = setup_shared_memory w" "run_from sv [] = sv"
  by (simp_all add: run_def run_from_def)

lemma ann_left_fields [simp]:
  "game ann_left_server = ann_left_game" "lock_trace ann_left_server = []"
  "game_state ann_left_game = GAME_IN_PROGRESS" "current_turn ann_left_game = 0"
  "p_state (players ann_left_game ! 0) = PLAYER_DISCONNECTED"
  "p_state (players ann_left_game ! 1) = PLAYER_ACTIVE"
  "cells_remaining ann_left_game = 40"
  by (simp_all add: ann_left_server_def ann_left_game_def setup_shared_memory_def
      example_players_def example_player_def)

subsection \<open>Joining\<close>

lemma list5:
  assumes "length ps = 5"
  obtains p0 p1 p2 p3 p4 where "ps = [p0, p1, p2, p3, p4]"
proof -
  from assms obtain p0 r0 where "ps = p0 # r0" "length r0 = 4" by (cases ps) auto
  moreover then obtain p1 r1 where "r0 = p1 # r1" "length r1 = 3" by (cases r0) auto
  moreover then obtain p2 r2 where "r1 = p2 # r2" "length r2 = 2" by (cases r1) auto
  moreover then obtain p3 r3 where "r2 = p3 # r3" "length r3 = 1" by (cases r2) auto
  moreover then obtain p4 where "r3 = [p4]" by (cases r3) auto
  ultimately show ?thesis using that by simp
qed

lemma promote_waiting_map:
  assumes "length ps = 5"
  shows "promote_waiting ps
         = map (\<lambda>p. if p_state p = PLAYER_WAITING then p\<lparr>p_state := PLAYER_ACTIVE\<rparr> else p) ps"
proof -
  from assms obtain p0 p1 p2 p3 p4 where ps: "ps = [p0, p1, p2, p3, p4]" by (rule list5)
  show ?thesis unfolding ps by (simp add: promote_waiting_def upt_5)
qed

lemma game_join_start_game:
  "game (fst (join_start_game puzzle response sv)) =
     (game sv)\<lparr>grid := puzzle, cells_remaining := 40, game_state := GAME_IN_PROGRESS,
               players := promote_waiting (players (game sv)),
               current_turn := get_next_active_player
                  ((game sv)\<lparr>players := promote_waiting (players (game sv))\<rparr>) (- 1),
               turn_signal := turn_signal (game sv) + 1\<rparr>"
  by (simp add: join_start_game_def generate_puzzle_def Let_def get_next_active_player_def)

lemma game_handle_join:
  "game (fst (handle_join player_id msg puzzle sv)) = game (fst (join_critical player_id msg puzzle sv))"
  by (simp add: handle_join_def split_def Let_def)

lemma game_join_critical:
  "game (fst (join_critical player_id msg puzzle sv)) =
     (if num_players (game sv) + 1 \<ge> MIN_PLAYERS \<and> game_state (game sv) = GAME_WAITING_FOR_PLAYERS
      then (game sv)\<lparr>grid := puzzle, cells_remaining := 40, game_state := GAME_IN_PROGRESS,
               num_players := num_players (game sv) + 1,
               players := promote_waiting ((players (game sv))[player_id := (players (game sv) ! player_id)
                     \<lparr>p_name := take (MAX_NAME_LEN - 1) (m_player_name msg),
                      p_state := PLAYER_WAITING, p_score := 0,
                      p_correct_placements := 0, p_wrong_placements := 0\<rparr>]),
               current_turn := get_next_active_player
                  ((game sv)\<lparr>players := promote_waiting ((players (game sv))[player_id := (players (game sv) ! player_id)
                     \<lparr>p_name := take (MAX_NAME_LEN - 1) (m_player_name msg),
                      p_state := PLAYER_WAITING, p_score := 0,
                      p_correct_placements := 0, p_wrong_placements := 0\<rparr>])\<rparr>) (- 1),
               turn_signal := turn_signal (game sv) + 1\<rparr>
      else (game sv)\<lparr>players := (players (game sv))[player_id := (players (game sv) ! player_id)
                     \<lparr>p_name := take (MAX_NAME_LEN - 1) (m_player_name msg),
                      p_state := PLAYER_WAITING, p_score := 0,
                      p_correct_placements := 0, p_wrong_placements := 0\<rparr>],
                     num_players := num_players (game sv) + 1\<rparr>)"
  by (simp add: join_critical_def Let_def split_def game_join_start_game get_next_active_player_def)

lemma game_handle_quit:
  "game (fst (handle_quit player_id sv)) =
     (game sv)\<lparr>players := (players (game sv))[player_id := (players (game sv) ! player_id)\<lparr>p_state := PLAYER_DISCONNECTED\<rparr>],
               num_players := num_players (game sv) - 1\<rparr>"
  by (simp add: handle_quit_def Let_def)

lemma game_handle_disconnect:
  "game (handle_disconnect player_id sv) =
     (game sv)\<lparr>players := (players (game sv))[player_id := (players (game sv) ! player_id)\<lparr>p_state := PLAYER_DISCONNECTED\<rparr>],
               num_players := num_players (game sv) - 1\<rparr>"
  by (simp add: handle_disconnect_def Let_def)

lemma game_handle_game_state [simp]: "game (fst (handle_game_state player_id sv)) = game sv"
  by (simp add: handle_game_state_def Let_def)

subsection \<open>The example game is reached\<close>



subsection \<open>The invariant of the turn\<close>



lemma active_slots_players:
  "players g' = players g \<Longrightarrow> active_slots g' = active_slots g"
  by (simp add: active_slots_def is_active_def[abs_def])




lemma gnap_active:
  "0 \<le> get_next_active_player g c \<Longrightarrow> is_active g (get_next_active_player g c)"
  using gnap_result[of g c] by auto


lemma promote_waiting_length [simp]: "length ps = 5 \<Longrightarrow> length (promote_waiting ps) = 5"
  by (simp add: promote_waiting_map)





lemma game_place_critical_cases:
  obtains (unchanged) "game (fst (place_critical player_id msg sv)) = game sv"
  | (resolved) "game_state (game sv) = GAME_IN_PROGRESS"
      "game (fst (place_critical player_id msg sv))
         = game (fst (place_resolve player_id msg zero_message (spin_lock GameLock sv)))"
  | (over) "game_state (game sv) = GAME_IN_PROGRESS"
      "game (fst (place_critical player_id msg sv))
         = (game (fst (place_resolve player_id msg zero_message (spin_lock GameLock sv))))
             \<lparr>winner_id := snd (place_find_winner (players (game
                 (fst (place_resolve player_id msg zero_message (spin_lock GameLock sv)))))),
              game_state := GAME_FINISHED\<rparr>"
proof (cases "place_admissible player_id msg (game sv)")
  case False
  then show ?thesis using unchanged by (simp add: place_critical_inadmissible(1))
next
  case True
  then have ip: "game_state (game sv) = GAME_IN_PROGRESS" by (simp add: place_admissible_def)
  show ?thesis
  proof (cases "cells_remaining (game (fst (place_resolve player_id msg zero_message (spin_lock GameLock sv)))) \<le> 0")
    case c: True
    show ?thesis
      by (rule over[OF ip]) (simp add: place_critical_admissible[OF True] c split_def Let_def game_place_game_over)
  next
    case c: False
    show ?thesis
      by (rule resolved[OF ip]) (simp add: place_critical_admissible[OF True] c split_def Let_def)
  qed
qed







subsection \<open>When the game starts, and who holds the turn\<close>











subsection \<open>Late joiners\<close>

lemma game_late_join:
  assumes "game_state (game sv) \<noteq> GAME_WAITING_FOR_PLAYERS"
  shows "game (fst (handle_join player_id msg puzzle sv)) =
     (game sv)\<lparr>players := (players (game sv))[player_id := (players (game sv) ! player_id)
                     \<lparr>p_name := take (MAX_NAME_LEN - 1) (m_player_name msg),
                      p_state := PLAYER_WAITING, p_score := 0,
                      p_correct_placements := 0, p_wrong_placements := 0\<rparr>],
               num_players := num_players (game sv) + 1\<rparr>"
proof -
  have "\<not> (num_players (game sv) + 1 \<ge> MIN_PLAYERS \<and> game_state (game sv) = GAME_WAITING_FOR_PLAYERS)"
    using assms by simp
  then show ?thesis
    by (simp only: game_handle_join game_join_critical if_False)
qed

lemma r_game_late_join:
  assumes "r_game_state (r_game rsv) \<noteq> GAME_WAITING_FOR_PLAYERS"
  shows "r_game (fst (race_handle_join player_id rmsg rsv)) =
     (r_game rsv)\<lparr>r_players := (r_players (r_game rsv))[player_id := (r_players (r_game rsv) ! player_id)
                     \<lparr>rp_name := take (MAX_NAME_LEN - 1) (rm_player_name rmsg),
                      rp_state := PLAYER_WAITING, rp_score := 0\<rparr>],
               r_num_players := r_num_players (r_game rsv) + 1\<rparr>"
  using assms by (simp add: race_handle_join_def Let_def)

lemma not_in_turn_next:
  assumes "not_in_turn p g" "0 \<le> get_next_active_player g c"
  shows "get_next_active_player g c \<noteq> int p"
proof
  assume e: "get_next_active_player g c = int p"
  from gnap_active[OF assms(2)] have "p_state (players g ! p) = PLAYER_ACTIVE"
    by (simp add: e is_active_def)
  with assms(1) show False by (simp add: not_in_turn_def)
qed

lemma not_in_turn_players:
  assumes "not_in_turn p g" "players g' = players g"
    "game_state g' \<noteq> GAME_WAITING_FOR_PLAYERS" "current_turn g' \<noteq> int p"
  shows "not_in_turn p g'"
  using assms by (simp add: not_in_turn_def)

lemma not_in_turn_update:
  assumes n: "not_in_turn p g" and q: "p_state q \<noteq> PLAYER_ACTIVE"
  shows "not_in_turn p (g\<lparr>players := (players g)[i := q], num_players := k\<rparr>)"
  using n q by (cases "i < length (players g)")
    (auto simp: not_in_turn_def nth_list_update list_update_beyond not_less)

lemma not_in_turn_join:
  assumes "not_in_turn p (game sv)"
  shows "not_in_turn p (game (fst (handle_join player_id msg puzzle sv)))"
proof -
  have w: "game_state (game sv) \<noteq> GAME_WAITING_FOR_PLAYERS"
    using assms by (simp add: not_in_turn_def)
  show ?thesis
    unfolding game_late_join[OF w] by (rule not_in_turn_update[OF assms]) simp
qed

lemma not_in_turn_place:
  assumes n: "not_in_turn p (game sv)"
  shows "not_in_turn p (game (fst (place_critical player_id msg sv)))"
proof (cases rule: game_place_critical_cases[of player_id msg sv])
  case unchanged
  then show ?thesis using n by simp
next
  case resolved
  then show ?thesis using n by (simp add: not_in_turn_def place_resolve_states)
next
  case over
  then show ?thesis using n by (simp add: not_in_turn_def place_resolve_states)
qed

lemma not_in_turn_advance:
  assumes n: "not_in_turn p (game sv)"
  shows "not_in_turn p (game (advance_turn sv))"
proof (cases "0 \<le> get_next_active_player (game sv) (current_turn (game sv))")
  case True
  from not_in_turn_next[OF n True] show ?thesis
    using n True by (intro not_in_turn_players[OF n]) (simp_all add: game_advance_turn not_in_turn_def)
next
  case False
  then show ?thesis using n by (simp add: game_advance_turn)
qed

lemma not_in_turn_scheduler:
  assumes n: "not_in_turn p (game sv)"
  shows "not_in_turn p (game (scheduler_iteration sv))"
proof (cases "game_state (game sv) = GAME_IN_PROGRESS")
  case False
  then show ?thesis using n by (simp add: game_scheduler_iteration)
next
  case True
  let ?g = "game sv"
  have c: "current_turn (game (scheduler_iteration sv)) = current_turn ?g
         \<or> (0 \<le> get_next_active_player ?g (current_turn ?g)
            \<and> current_turn (game (scheduler_iteration sv)) = get_next_active_player ?g (current_turn ?g))"
    using True
    by (simp add: game_scheduler_iteration game_scheduler_check_completion game_scheduler_check_turn)
  have s: "game_state (game (scheduler_iteration sv)) \<noteq> GAME_WAITING_FOR_PLAYERS"
    using True
    by (simp add: game_scheduler_iteration game_scheduler_check_completion game_scheduler_check_turn)
  have ps: "players (game (scheduler_iteration sv)) = players ?g"
    by (simp add: game_scheduler_iteration game_scheduler_check_completion)
  have "current_turn (game (scheduler_iteration sv)) \<noteq> int p"
    using c not_in_turn_next[OF n] n by (auto simp: not_in_turn_def)
  then show ?thesis by (intro not_in_turn_players[OF n ps s])
qed

lemma not_in_turn_leave:
  assumes "not_in_turn p g"
  shows "not_in_turn p (g\<lparr>players := (players g)[player_id := (players g ! player_id)\<lparr>p_state := PLAYER_DISCONNECTED\<rparr>],
                      num_players := num_players g - 1\<rparr>)"
  by (rule not_in_turn_update[OF assms]) simp

lemma not_in_turn_exec:
  assumes "not_in_turn p (game sv)"
  shows "not_in_turn p (game (exec e sv))"
  using assms
  by (cases e)
     (simp_all add: not_in_turn_join not_in_turn_place not_in_turn_advance not_in_turn_scheduler
        game_handle_quit game_handle_disconnect not_in_turn_leave)

lemma not_in_turn_run_from:
  assumes "not_in_turn p (game sv)"
  shows "not_in_turn p (game (run_from sv es))"
proof (induction es rule: rev_induct)
  case Nil
  show ?case using assms by simp
next
  case (snoc e es)
  then show ?case by (simp add: not_in_turn_exec)
qed

text \<open>
  Claim C8. A Join received while the game is in progress or finished records the name in
  the joining slot, sets its state to Waiting, resets its score and counters and increments
  \<open>num_players\<close>, on both servers; nothing else in the shared game state changes: not
  the phase, the turn, the grid, the winner, nor any other player. The slot is Waiting, not
  Active, after the request; and on the Sudoku server a late joiner who does not hold the
  turn is never Active and never holds the turn, whatever the server does afterwards.
\<close>

theorem C8_late_join:
  assumes phase: "game_state (game sv) \<noteq> GAME_WAITING_FOR_PLAYERS"
    and len: "length (players (game sv)) = 5"
    and rphase: "r_game_state (r_game rsv) \<noteq> GAME_WAITING_FOR_PLAYERS"
    and rlen: "length (r_players (r_game rsv)) = 5"
    and pid: "int player_id < MAX_PLAYERS"
    and sv': "sv' = fst (handle_join player_id msg puzzle sv)"
    and rsv': "rsv' = fst (race_handle_join player_id rmsg rsv)"
  shows "game sv' =
           (game sv)\<lparr>players := (players (game sv))[player_id := (players (game sv) ! player_id)
                          \<lparr>p_name := take (MAX_NAME_LEN - 1) (m_player_name msg),
                           p_state := PLAYER_WAITING, p_score := 0,
                           p_correct_placements := 0, p_wrong_placements := 0\<rparr>],
                     num_players := num_players (game sv) + 1\<rparr>
       \<and> game_state (game sv') = game_state (game sv)
       \<and> current_turn (game sv') = current_turn (game sv)
       \<and> grid (game sv') = grid (game sv)
       \<and> (\<forall>j. j \<noteq> player_id \<longrightarrow> players (game sv') ! j = players (game sv) ! j)
       \<and> p_state (players (game sv') ! player_id) = PLAYER_WAITING
       \<and> r_game rsv' =
           (r_game rsv)\<lparr>r_players := (r_players (r_game rsv))[player_id := (r_players (r_game rsv) ! player_id)
                          \<lparr>rp_name := take (MAX_NAME_LEN - 1) (rm_player_name rmsg),
                           rp_state := PLAYER_WAITING, rp_score := 0\<rparr>],
                        r_num_players := r_num_players (r_game rsv) + 1\<rparr>
       \<and> (\<forall>j. j \<noteq> player_id \<longrightarrow> r_players (r_game rsv') ! j = r_players (r_game rsv) ! j)
       \<and> rp_state (r_players (r_game rsv') ! player_id) = PLAYER_WAITING
       \<and> (current_turn (game sv) \<noteq> int player_id \<longrightarrow>
            (\<forall>es. current_turn (game (run_from sv' es)) \<noteq> int player_id
                \<and> p_state (players (game (run_from sv' es)) ! player_id) \<noteq> PLAYER_ACTIVE))"
proof -
  note g = game_late_join[OF phase, of player_id msg puzzle, folded sv']
  note rg = r_game_late_join[OF rphase, of player_id rmsg, folded rsv']
  have pl: "player_id < length (players (game sv))" "player_id < length (r_players (r_game rsv))"
    using pid len rlen by simp_all
  have frame: "game_state (game sv') = game_state (game sv)"
    "current_turn (game sv') = current_turn (game sv)" "grid (game sv') = grid (game sv)"
    "\<forall>j. j \<noteq> player_id \<longrightarrow> players (game sv') ! j = players (game sv) ! j"
    "p_state (players (game sv') ! player_id) = PLAYER_WAITING"
    using pl by (simp_all add: g)
  have rframe: "\<forall>j. j \<noteq> player_id \<longrightarrow> r_players (r_game rsv') ! j = r_players (r_game rsv) ! j"
    "rp_state (r_players (r_game rsv') ! player_id) = PLAYER_WAITING"
    using pl by (simp_all add: rg)
  have never: "current_turn (game (run_from sv' es)) \<noteq> int player_id
                \<and> p_state (players (game (run_from sv' es)) ! player_id) \<noteq> PLAYER_ACTIVE"
    if "current_turn (game sv) \<noteq> int player_id" for es
  proof -
    have "not_in_turn player_id (game sv')"
      using that phase len frame by (simp add: not_in_turn_def g)
    from not_in_turn_run_from[OF this, of es] show ?thesis
      by (simp add: not_in_turn_def)
  qed
  from g rg frame rframe never show ?thesis by blast
qed

theorem C8_late_join_witness:
  "p_state (players (game (fst (handle_join 3 (join_request ''Dee'') example_puzzle example_server))) ! 3)
     = PLAYER_WAITING
   \<and> num_players (game (fst (handle_join 3 (join_request ''Dee'') example_puzzle example_server))) = 4
   \<and> current_turn (game (fst (handle_join 3 (join_request ''Dee'') example_puzzle example_server))) = 0
   \<and> current_turn (game (run_from (fst (handle_join 3 (join_request ''Dee'') example_puzzle example_server))
        [EvPlace 0 (place_request 0 0 1), EvAdvanceTurn, EvScheduler])) \<noteq> 3
   \<and> rp_state (r_players (r_game (fst (race_handle_join 3 (race_join_request ''Dee'') race_example_server))) ! 3)
     = PLAYER_WAITING"
proof -
  have h: "game_state (game example_server) \<noteq> GAME_WAITING_FOR_PLAYERS"
    "length (players (game example_server)) = 5"
    "r_game_state (r_game race_example_server) \<noteq> GAME_WAITING_FOR_PLAYERS"
    "length (r_players (r_game race_example_server)) = 5"
    "int 3 < MAX_PLAYERS"
    by (simp_all add: example_players_def)
  let ?sv' = "fst (handle_join 3 (join_request ''Dee'') example_puzzle example_server)"
  let ?rsv' = "fst (race_handle_join 3 (race_join_request ''Dee'') race_example_server)"
  note T = C8_late_join[OF h refl refl, of "join_request ''Dee''" example_puzzle "race_join_request ''Dee''"]
  from T have g: "game ?sv' = (game example_server)\<lparr>players := (players (game example_server))
       [3 := (players (game example_server) ! 3)
                          \<lparr>p_name := take (MAX_NAME_LEN - 1) (m_player_name (join_request ''Dee'')),
                           p_state := PLAYER_WAITING, p_score := 0,
                           p_correct_placements := 0, p_wrong_placements := 0\<rparr>],
                     num_players := num_players (game example_server) + 1\<rparr>"
    by blast
  from T have w: "p_state (players (game ?sv') ! 3) = PLAYER_WAITING"
    and rw: "rp_state (r_players (r_game ?rsv') ! 3) = PLAYER_WAITING"
    and c: "current_turn (game ?sv') = current_turn (game example_server)"
    by blast+
  have "current_turn (game example_server) \<noteq> int 3" by simp
  with T have "\<forall>es. current_turn (game (run_from ?sv' es)) \<noteq> int 3
                \<and> p_state (players (game (run_from ?sv' es)) ! 3) \<noteq> PLAYER_ACTIVE"
    by blast
  then have n: "current_turn (game (run_from ?sv'
        [EvPlace 0 (place_request 0 0 1), EvAdvanceTurn, EvScheduler])) \<noteq> 3"
    by simp
  have k: "num_players (game ?sv') = 4" by (simp add: g)
  from w rw c n k show ?thesis by simp
qed

subsection \<open>Lock traces\<close>

lemma locks_held_append:
  "locks_held held (a @ b) = locks_held (locks_held held a) b"
proof (induction a arbitrary: held)
  case Nil
  show ?case by simp
next
  case (Cons e a)
  show ?case by (cases e) (simp_all add: Cons.IH)
qed

lemma only_log_nested_append:
  "only_log_nested held (a @ b)
     \<longleftrightarrow> only_log_nested held a \<and> only_log_nested (locks_held held a) b"
proof (induction a arbitrary: held)
  case Nil
  show ?case by simp
next
  case (Cons e a)
  show ?case by (cases e) (simp_all add: Cons.IH)
qed

lemma balanced_under_Nil [simp]: "balanced_under held []"
  by (simp add: balanced_under_def)

lemma balanced_under_append:
  "balanced_under held a \<Longrightarrow> balanced_under held b \<Longrightarrow> balanced_under held (a @ b)"
  by (simp add: balanced_under_def only_log_nested_append locks_held_append)

lemma balanced_pair:
  "balanced_under [GameLock] [Acquire LogLock, Release LogLock]"
  "balanced_under [] [Acquire l, Release l]"
  by (simp_all add: balanced_under_def)

lemma balanced_wrap:
  "balanced_under [GameLock] seg \<Longrightarrow> balanced_under [] (Acquire GameLock # seg @ [Release GameLock])"
  by (simp add: balanced_under_def only_log_nested_append locks_held_append)

lemma inner_step_refl [simp]: "inner_step sv sv"
  by (simp add: inner_step_def)

lemma inner_step_same: "lock_trace sv' = lock_trace sv \<Longrightarrow> inner_step sv sv'"
  by (simp add: inner_step_def)

lemma inner_step_trans: "inner_step a b \<Longrightarrow> inner_step b c \<Longrightarrow> inner_step a c"
  unfolding inner_step_def
  by (metis append.assoc balanced_under_append)

lemma outer_step_refl [simp]: "outer_step sv sv"
  by (simp add: outer_step_def)

lemma outer_step_trans: "outer_step a b \<Longrightarrow> outer_step b c \<Longrightarrow> outer_step a c"
  unfolding outer_step_def
  by (metis append.assoc balanced_under_append)

lemma inner_is_outer: "inner_step a b \<Longrightarrow> outer_step a b"
  by (auto simp: inner_step_def outer_step_def)

lemma outer_wrap:
  assumes "inner_step (spin_lock GameLock sv) sv1"
  shows "outer_step sv (spin_unlock GameLock sv1)"
proof -
  from assms obtain seg where t: "lock_trace sv1 = (lock_trace sv @ [Acquire GameLock]) @ seg"
    and b: "balanced_under [GameLock] seg"
    by (auto simp: inner_step_def)
  have "lock_trace (spin_unlock GameLock sv1)
        = lock_trace sv @ (Acquire GameLock # seg @ [Release GameLock])"
    by (simp add: t)
  then show ?thesis
    unfolding outer_step_def using balanced_wrap[OF b] by blast
qed

lemma inner_enqueue_log: "inner_step sv (enqueue_log m sv)"
  unfolding inner_step_def
  by (rule exI[of _ "[Acquire LogLock, Release LogLock]"]) (simp add: balanced_pair)

lemma inner_enqueue_log_game: "inner_step sv (enqueue_log m (sv\<lparr>game := g\<rparr>))"
  by (rule inner_step_trans[OF inner_step_same inner_enqueue_log]) simp

lemma lock_trace_save_scores:
  "lock_trace (save_scores sv)
     = lock_trace sv @ (if scores_file_writable sv then [Acquire ScoresLock, Release ScoresLock] else [])"
  by (simp add: save_scores_def Let_def)

lemma lock_trace_sigint_handler:
  "lock_trace (sigint_handler sv) = lock_trace sv @ fst (sigint_run (scores_file_writable sv) [])"
  by (simp add: sigint_handler_def sigint_run_def Let_def lock_trace_save_scores)

lemma sigint_run_free: "snd (sigint_run writable [])"
  by (simp add: sigint_run_def Let_def)

lemma outer_save_scores: "outer_step sv (save_scores sv)"
  unfolding outer_step_def
  by (rule exI[of _ "if scores_file_writable sv then [Acquire ScoresLock, Release ScoresLock] else []"])
     (simp add: lock_trace_save_scores balanced_pair)

lemma outer_lock_pair:
  assumes "lock_trace sv' = lock_trace sv @ [Acquire l, Release l]"
  shows "outer_step sv sv'"
  unfolding outer_step_def using assms balanced_pair(2) by blast

text \<open>The logger and the main thread.\<close>

lemma outer_logger_iteration: "outer_step sv (logger_iteration sv)"
  by (rule outer_lock_pair) simp

lemma outer_load_scores: "outer_step sv (load_scores f sv)"
proof (cases f)
  case None
  then show ?thesis by (simp add: load_scores_def)
next
  case (Some rows)
  let ?m = "spin_unlock ScoresLock
              ((spin_lock ScoresLock sv)\<lparr>scores := fold (\<lambda>row es. if int (length es) < MAX_SCORES
                    then es @ [row\<lparr>se_name := take (MAX_NAME_LEN - 1) (se_name row)\<rparr>] else es)
                  rows (scores (spin_lock ScoresLock sv))\<rparr>)"
  have "outer_step sv ?m"
    by (rule outer_lock_pair) simp
  from outer_step_trans[OF this inner_is_outer[OF inner_enqueue_log]]
  show ?thesis using Some by (simp add: load_scores_def Let_def)
qed

lemma outer_main_shutdown: "outer_step sv (main_shutdown sv)"
proof -
  let ?s = "save_scores (enqueue_log LogServerShutdown sv)"
  have a: "outer_step sv ?s"
    by (rule outer_step_trans[OF inner_is_outer[OF inner_enqueue_log] outer_save_scores])
  have "outer_step ?s (spin_unlock LogLock
          ((spin_lock LogLock ?s)\<lparr>log_queue := (log_queue (spin_lock LogLock ?s))\<lparr>lq_shutdown := 1\<rparr>\<rparr>))"
    by (rule outer_lock_pair) simp
  from outer_step_trans[OF a this]
  show ?thesis by (simp add: main_shutdown_def Let_def)
qed

text \<open>The signal handler, run by a thread that holds no lock.\<close>

lemma outer_sigint_handler: "outer_step sv (sigint_handler sv)"
proof -
  have "balanced_under [] (fst (sigint_run (scores_file_writable sv) []))"
    by (simp add: sigint_run_def Let_def balanced_under_def)
  then show ?thesis
    unfolding outer_step_def using lock_trace_sigint_handler by blast
qed

text \<open>
  The scheduler. While the puzzle is open, the completion check finds empty cells and
  leaves the score ledger alone.
\<close>

lemma inner_scheduler_check_turn: "inner_step sv (scheduler_check_turn sv)"
  by (simp add: scheduler_check_turn_def Let_def inner_enqueue_log_game)

lemma scheduler_check_completion_open:
  "0 < cells_remaining (game sv) \<Longrightarrow> scheduler_check_completion sv = sv"
  by (simp add: scheduler_check_completion_def)

lemma outer_scheduler_iteration:
  assumes "puzzle_open (game sv)"
  shows "outer_step sv (scheduler_iteration sv)"
proof (cases "game_state (game sv) = GAME_IN_PROGRESS")
  case False
  have "outer_step sv (spin_unlock GameLock (spin_lock GameLock sv))"
    by (rule outer_wrap) simp
  then show ?thesis using False by (simp add: scheduler_iteration_def Let_def)
next
  case True
  let ?s1 = "scheduler_check_turn (spin_lock GameLock sv)"
  have "0 < cells_remaining (game ?s1)"
    using assms True by (simp add: puzzle_open_def)
  then have "scheduler_check_completion ?s1 = ?s1"
    by (rule scheduler_check_completion_open)
  moreover have "outer_step sv (spin_unlock GameLock ?s1)"
    by (rule outer_wrap) (rule inner_scheduler_check_turn)
  ultimately show ?thesis using True by (simp add: scheduler_iteration_def Let_def)
qed

text \<open>The handlers.\<close>

lemma outer_advance_turn: "outer_step sv (advance_turn sv)"
  by (auto simp: advance_turn_def Let_def intro!: outer_wrap inner_enqueue_log_game)

lemma outer_broadcast: "outer_step sv (broadcast_turn_notification sv)"
  by (auto simp: broadcast_turn_notification_def Let_def intro!: outer_wrap)

lemma outer_handle_game_state: "outer_step sv (fst (handle_game_state player_id sv))"
  by (auto simp: handle_game_state_def Let_def intro!: outer_wrap)

lemma outer_handle_quit: "outer_step sv (fst (handle_quit player_id sv))"
proof -
  have "outer_step sv (spin_unlock GameLock ((spin_lock GameLock sv)\<lparr>game := g\<rparr>))" for g
    by (rule outer_wrap) (simp add: inner_step_same)
  from outer_step_trans[OF this inner_is_outer[OF inner_enqueue_log]]
  show ?thesis by (simp add: handle_quit_def Let_def)
qed

lemma outer_handle_disconnect: "outer_step sv (handle_disconnect player_id sv)"
proof -
  have "outer_step sv (spin_unlock GameLock ((spin_lock GameLock sv)\<lparr>game := g\<rparr>))" for g
    by (rule outer_wrap) (simp add: inner_step_same)
  from outer_step_trans[OF this inner_is_outer[OF inner_enqueue_log]]
  show ?thesis by (simp add: handle_disconnect_def Let_def)
qed

lemma inner_place_resolve: "inner_step sv (fst (place_resolve player_id msg response sv))"
  by (simp add: place_resolve_def place_correct_def place_wrong_def Let_def inner_enqueue_log_game)

lemma outer_place_critical: "outer_step sv (fst (place_critical player_id msg sv))"
proof (cases "place_admissible player_id msg (game sv)")
  case False
  show ?thesis
    unfolding place_critical_inadmissible(1)[OF False]
    by (rule outer_wrap) simp
next
  case True
  let ?sv1 = "fst (place_resolve player_id msg zero_message (spin_lock GameLock sv))"
  have i: "inner_step (spin_lock GameLock sv) ?sv1" by (rule inner_place_resolve)
  have "inner_step (spin_lock GameLock sv) (?sv1\<lparr>game := g\<rparr>)" for g
    by (rule inner_step_trans[OF i]) (simp add: inner_step_same)
  then show ?thesis
    using i
    by (auto simp: place_critical_admissible[OF True] split_def Let_def place_game_over_def
        intro!: outer_wrap)
qed

lemma inner_generate_puzzle: "inner_step sv (generate_puzzle puzzle d sv)"
  by (simp add: generate_puzzle_def Let_def inner_enqueue_log_game)

lemma inner_join_start_game: "inner_step sv (fst (join_start_game puzzle response sv))"
proof -
  have "inner_step sv (enqueue_log m ((generate_puzzle puzzle 2 sv)\<lparr>game := g\<rparr>))" for m g
    by (rule inner_step_trans[OF inner_generate_puzzle inner_enqueue_log_game])
  then show ?thesis by (simp add: join_start_game_def Let_def)
qed

lemma outer_join_critical: "outer_step sv (fst (join_critical player_id msg puzzle sv))"
proof -
  have a: "inner_step (spin_lock GameLock sv) (enqueue_log m ((spin_lock GameLock sv)\<lparr>game := g\<rparr>))"
    (is "inner_step _ (?e m g)") for m g
    by (rule inner_enqueue_log_game)
  have b: "inner_step (spin_lock GameLock sv) (fst (join_start_game puzzle r (?e m g)))" for m g r
    by (rule inner_step_trans[OF a inner_join_start_game])
  show ?thesis
    using a b by (auto simp: join_critical_def Let_def split_def intro!: outer_wrap)
qed

lemma outer_handle_join: "outer_step sv (fst (handle_join player_id msg puzzle sv))"
  using outer_join_critical[of sv player_id msg puzzle]
    outer_step_trans[OF outer_join_critical[of sv player_id msg puzzle] outer_broadcast]
  by (simp add: handle_join_def split_def Let_def)

lemma outer_exec:
  assumes "puzzle_open (game sv)"
  shows "outer_step sv (exec e sv)"
  using assms
  by (cases e)
     (simp_all add: outer_handle_join outer_place_critical outer_advance_turn outer_broadcast
        outer_handle_game_state outer_handle_quit outer_handle_disconnect outer_scheduler_iteration
        outer_sigint_handler inner_is_outer[OF inner_enqueue_log] outer_logger_iteration
        outer_load_scores outer_main_shutdown)

text \<open>The puzzle stays open while the game is in progress.\<close>

lemma puzzle_open_place:
  assumes "puzzle_open (game sv)"
  shows "puzzle_open (game (fst (place_critical player_id msg sv)))"
proof (cases "place_admissible player_id msg (game sv)")
  case False
  then show ?thesis using assms by (simp add: place_critical_inadmissible(1))
next
  case True
  show ?thesis
    by (simp add: place_critical_admissible[OF True] split_def Let_def game_place_game_over
        puzzle_open_def)
qed

lemma puzzle_open_scheduler:
  assumes "puzzle_open (game sv)"
  shows "puzzle_open (game (scheduler_iteration sv))"
  using assms
  by (auto simp: puzzle_open_def game_scheduler_iteration game_scheduler_check_completion
      game_scheduler_check_turn split: if_splits)

lemma puzzle_open_exec:
  assumes "puzzle_open (game sv)"
  shows "puzzle_open (game (exec e sv))"
proof (cases e)
  case (EvJoin player_id msg puzzle)
  then show ?thesis
    using assms by (simp add: game_handle_join game_join_critical puzzle_open_def)
next
  case (EvPlace player_id msg)
  then show ?thesis using assms by (simp add: puzzle_open_place)
next
  case EvAdvanceTurn
  then show ?thesis using assms by (simp add: puzzle_open_def)
next
  case EvNotify
  then show ?thesis using assms by simp
next
  case (EvGameState player_id)
  then show ?thesis using assms by simp
next
  case (EvQuit player_id)
  then show ?thesis using assms by (simp add: game_handle_quit puzzle_open_def)
next
  case (EvDisconnect player_id)
  then show ?thesis using assms by (simp add: game_handle_disconnect puzzle_open_def)
next
  case EvScheduler
  then show ?thesis using assms by (simp add: puzzle_open_scheduler)
next
  case (EvLog message)
  then show ?thesis using assms by simp
next
  case EvLogger
  then show ?thesis using assms by simp
next
  case (EvLoadScores f)
  then show ?thesis using assms by simp
next
  case EvShutdown
  then show ?thesis using assms by simp
next
  case EvSignal
  then show ?thesis using assms by simp
qed

lemma puzzle_open_run: "puzzle_open (game (run w es))"
proof (induction es rule: rev_induct)
  case Nil
  show ?case by (simp add: puzzle_open_def setup_shared_memory_def initial_game_def)
next
  case (snoc e es)
  then show ?case by (simp add: puzzle_open_exec)
qed

lemma outer_run: "outer_step (setup_shared_memory w) (run w es)"
proof (induction es rule: rev_induct)
  case Nil
  show ?case by simp
next
  case (snoc e es)
  show ?case
    using outer_step_trans[OF snoc outer_exec[OF puzzle_open_run]] by simp
qed

text \<open>Signals delivered at any point.\<close>

lemma game_lock_first_append:
  "game_lock_first held (a @ b)
     \<longleftrightarrow> game_lock_first held a \<and> game_lock_first (locks_held held a) b"
proof (induction a arbitrary: held)
  case Nil
  show ?case by simp
next
  case (Cons e a)
  show ?case by (cases e) (simp_all add: Cons.IH)
qed

lemma only_log_nested_first: "only_log_nested held tr \<Longrightarrow> game_lock_first held tr"
proof (induction tr arbitrary: held)
  case Nil
  show ?case by simp
next
  case (Cons e tr)
  then show ?case by (cases e) auto
qed

lemma sigint_run_first:
  assumes "sigint_run writable held = (h, returns)"
  shows "game_lock_first held h" and "locks_held held h = held"
  using assms by (auto simp: sigint_run_def Let_def split: if_splits)

lemma game_lock_first_deliver:
  assumes "game_lock_first [] tr"
  shows "game_lock_first [] (deliver writable n tr)"
proof -
  obtain h returns where r: "sigint_run writable (locks_held [] (take n tr)) = (h, returns)"
    by (cases "sigint_run writable (locks_held [] (take n tr))")
  have "game_lock_first [] (take n tr @ drop n tr)" using assms by simp
  then have a: "game_lock_first [] (take n tr)"
    and b: "game_lock_first (locks_held [] (take n tr)) (drop n tr)"
    by (simp_all only: game_lock_first_append)
  show ?thesis
    using a b sigint_run_first[OF r]
    by (simp add: deliver_def r game_lock_first_append locks_held_append)
qed

lemma game_lock_first_deliveries:
  "game_lock_first [] tr \<Longrightarrow> game_lock_first [] (fold (deliver writable) ns tr)"
  by (induction ns arbitrary: tr) (simp_all add: game_lock_first_deliver)

lemma game_lock_first_take:
  assumes "game_lock_first held tr"
  shows "game_lock_first held (take k tr)"
proof -
  have "game_lock_first held (take k tr @ drop k tr)" using assms by simp
  then show ?thesis by (simp only: game_lock_first_append)
qed

text \<open>
  A signal that reaches a thread between two critical sections: \<open>deliver\<close> adds the lock
  operations of \<open>sigint_handler\<close>.
\<close>

lemma deliver_between_sections:
  assumes "locks_held [] (lock_trace sv) = []"
  shows "deliver (scores_file_writable sv) (length (lock_trace sv)) (lock_trace sv)
           = lock_trace (sigint_handler sv)"
  using assms
  by (simp add: deliver_def lock_trace_sigint_handler split_def sigint_run_free)

text \<open>
  Claim C4, as the code has it. A thread does hold several locks at once, in two ways:
  the scheduler and the handlers write to the log inside their critical sections of the
  game, so they acquire the log lock while they hold the game lock; and the signal
  handler, which interrupts a thread at any point, acquires the score lock and then the
  log lock on top of the locks the thread holds. Apart from these the claim holds. Along
  every run of the server from start-up (the events of the handlers, the scheduler, the
  logger and the main thread, and signals between critical sections, in any order), a
  lock is acquired either with no lock held, or it is the log lock and the game lock
  alone is held; only a lock that is held is released; and between two critical sections
  no lock is held. So the score lock is never held together with another lock, and the
  log lock only with the game lock. When signals are also delivered inside the critical
  sections, at the positions \<open>ns\<close> of the trace, then in the execution and in each of
  its prefixes (a thread whose signal handler waits for a lock of its own thread stops
  there) the game lock is still acquired only with no lock held, and no lock is acquired
  by a thread that holds it. All of this is checked at every lock operation of the
  trace, hence in every state the execution goes through.
\<close>

theorem C4_lock_order:
  "only_log_nested [] (lock_trace (run writable es))
   \<and> locks_held [] (lock_trace (run writable es)) = []
   \<and> game_lock_first [] (take k (fold (deliver writable) ns (lock_trace (run writable es))))"
proof -
  have "outer_step (setup_shared_memory writable) (run writable es)"
    by (rule outer_run)
  then have o: "only_log_nested [] (lock_trace (run writable es))"
    and h: "locks_held [] (lock_trace (run writable es)) = []"
    by (auto simp: outer_step_def balanced_under_def setup_shared_memory_def)
  from o have "game_lock_first [] (lock_trace (run writable es))"
    by (rule only_log_nested_first)
  then have "game_lock_first [] (fold (deliver writable) ns (lock_trace (run writable es)))"
    by (rule game_lock_first_deliveries)
  then have "game_lock_first [] (take k (fold (deliver writable) ns (lock_trace (run writable es))))"
    by (rule game_lock_first_take)
  with o h show ?thesis by simp
qed

lemma scheduler_trace_ann_left:
  "lock_trace (scheduler_iteration ann_left_server)
     = [Acquire GameLock, Acquire LogLock, Release LogLock, Release GameLock]"
  by (simp add: scheduler_iteration_def scheduler_check_turn_def scheduler_check_completion_def
      Let_def gnap_unroll gnap_loop_unroll)

lemma advance_trace_example:
  "lock_trace (advance_turn example_server)
     = [Acquire GameLock, Acquire LogLock, Release LogLock, Release GameLock]"
  by (simp add: advance_turn_def Let_def gnap_unroll gnap_loop_unroll example_server_def
      setup_shared_memory_def example_players_def example_player_def)

text \<open>
  Claim C4 as stated fails, in both ways. When the scheduler finds that Ann, who holds
  the turn, has left, it passes the turn to Bob and logs it: it acquires the log lock
  while it holds the game lock. And when Ann's handler advances the turn in the example
  game and a signal reaches it inside \<^verbatim>\<open>enqueue_log\<close>, after its second lock operation,
  \<^verbatim>\<open>save_scores\<close> in the signal handler acquires the score lock: after the third lock
  operation the process holds all three locks.
\<close>

theorem C4_several_locks_counterexample:
  "\<not> at_most_one_lock [] (lock_trace (scheduler_iteration ann_left_server))
   \<and> locks_held [] (take 3 (deliver True 2 (lock_trace (advance_turn example_server))))
       = [ScoresLock, LogLock, GameLock]"
  by (simp add: scheduler_trace_ann_left advance_trace_example deliver_def sigint_run_def)

theorem C4_lock_order_witness:
  "only_log_nested [] (lock_trace (run True (three_joins @ [EvQuit 0, EvScheduler, EvSignal])))
   \<and> locks_held [] (lock_trace (run True (three_joins @ [EvQuit 0, EvScheduler, EvSignal]))) = []
   \<and> game_lock_first []
       (take 12 (fold (deliver True) [1, 9]
                   (lock_trace (run True (three_joins @ [EvQuit 0, EvScheduler, EvSignal])))))"
  by (rule C4_lock_order)

end
